theory Spec2Isabelle
  imports
    Complex_Main
    "HOL-Library.Monad_Syntax"
    "HOL-Library.Multiset"
    "HOL-Library.Char_ord"
    "HOL-Library.List_Lexorder"
    "HOL-Library.Product_Lexorder"
begin

section \<open>Decoded JSON values and Go type assertions\<close>

text \<open>
  The birdwatcher client hands the parsers the result of Go's JSON decoder: a tree of
  \<^verbatim>\<open>interface{}\<close> values, each one \<^verbatim>\<open>nil\<close>, a \<^verbatim>\<open>bool\<close>, a \<^verbatim>\<open>float64\<close>, a
  \<^verbatim>\<open>string\<close>, a \<^verbatim>\<open>[]interface{}\<close> or a \<^verbatim>\<open>map[string]interface{}\<close>.
  A \<^verbatim>\<open>float64\<close> that the decoder produced is finite and is modelled by a rational. A Go map
  is modelled by an association list with distinct keys; the order of the list stands for
  the order in which a \<^verbatim>\<open>range\<close> loop happens to visit the map, which Go leaves unspecified.
\<close>

datatype json =
    JNull
  | JBool bool
  | JNum rat
  | JStr string
  | JArr "json list"
  | JObj "(string \<times> json) list"

type_synonym jmap = "(string \<times> json) list"

text \<open>\<^verbatim>\<open>m[k]\<close> on a \<^verbatim>\<open>map[string]interface{}\<close>: a missing key reads as \<^verbatim>\<open>nil\<close>.\<close>

definition index :: "jmap \<Rightarrow> string \<Rightarrow> json" where
  "index m k = (case map_of m k of None \<Rightarrow> JNull | Some v \<Rightarrow> v)"

text \<open>
  A one-result type assertion \<^verbatim>\<open>v.(T)\<close> panics when \<^verbatim>\<open>v\<close> does not hold a \<^verbatim>\<open>T\<close>. A computation
  that may panic returns an \<open>option\<close>: \<open>None\<close> is the run-time panic (the function does not
  return), \<open>Some r\<close> is a normal return of \<open>r\<close>.
\<close>

fun assert_string :: "json \<Rightarrow> string option" where
  "assert_string (JStr s) = Some s"
| "assert_string _ = None"

fun assert_float64 :: "json \<Rightarrow> rat option" where
  "assert_float64 (JNum x) = Some x"
| "assert_float64 _ = None"

fun assert_list :: "json \<Rightarrow> json list option" where
  "assert_list (JArr xs) = Some xs"
| "assert_list _ = None"

fun assert_map :: "json \<Rightarrow> jmap option" where
  "assert_map (JObj m) = Some m"
| "assert_map _ = None"

text \<open>The two-result form \<^verbatim>\<open>x, ok := v.(T)\<close> never panics; \<^verbatim>\<open>x\<close> is the zero value when \<^verbatim>\<open>ok\<close> is false.\<close>

fun string_ok :: "json \<Rightarrow> string \<times> bool" where
  "string_ok (JStr s) = (s, True)"
| "string_ok _ = ([], False)"

fun list_ok :: "json \<Rightarrow> json list \<times> bool" where
  "list_ok (JArr xs) = (xs, True)"
| "list_ok _ = ([], False)"

text \<open>The bounds of the 64-bit \<^verbatim>\<open>int\<close> and \<^verbatim>\<open>uint64\<close>.\<close>

definition maxInt :: int where
  "maxInt = 9223372036854775807"

definition minInt :: int where
  "minInt = - 9223372036854775808"

definition maxUint64 :: int where
  "maxUint64 = 18446744073709551615"

text \<open>
  The conversion \<^verbatim>\<open>int(x)\<close> of a \<^verbatim>\<open>float64\<close> discards the fraction (truncation towards zero)
  when the truncated value is an \<^verbatim>\<open>int\<close>. When it is not, Go leaves the result to the
  implementation; the model takes that of amd64, where the conversion instruction gives the
  smallest \<^verbatim>\<open>int\<close>.
\<close>

definition trunc_toward_zero :: "rat \<Rightarrow> int" where
  "trunc_toward_zero x = (if 0 \<le> x then \<lfloor>x\<rfloor> else - \<lfloor>- x\<rfloor>)"

definition float64_to_int :: "rat \<Rightarrow> int" where
  "float64_to_int x =
     (let t = trunc_toward_zero x in if minInt \<le> t \<and> t \<le> maxInt then t else minInt)"

section \<open>\<^verbatim>\<open>strconv.Atoi\<close>\<close>

text \<open>
  The library functions \<^verbatim>\<open>strconv.ParseUint\<close>, \<^verbatim>\<open>strconv.ParseInt\<close> and \<^verbatim>\<open>strconv.Atoi\<close>, for
  base 10 on a platform with 64-bit \<^verbatim>\<open>int\<close>. A result is the value with the error
  (\<open>None\<close> is \<^verbatim>\<open>nil\<close>).
\<close>

datatype NumError = ErrSyntax | ErrRange

definition is_digit :: "char \<Rightarrow> bool" where
  "is_digit c = (c \<in> set ''0123456789'')"

definition digit_val :: "char \<Rightarrow> int" where
  "digit_val c = int (of_char c) - 48"

text \<open>
  The loop of \<^verbatim>\<open>ParseUint\<close> reads the bytes from the left. A byte that is not a digit ends it
  with a syntax error; a digit with which the value would leave the range of \<^verbatim>\<open>uint64\<close> ends it
  with the largest \<^verbatim>\<open>uint64\<close> and a range error, and the bytes after that digit are not read.
\<close>

definition uint64_cutoff :: int where
  "uint64_cutoff = maxUint64 div 10 + 1"

fun ParseUint_loop :: "string \<Rightarrow> int \<Rightarrow> int \<times> NumError option" where
  "ParseUint_loop [] n = (n, None)"
| "ParseUint_loop (c # rest) n =
     (if \<not> is_digit c then (0, Some ErrSyntax)
      else if uint64_cutoff \<le> n then (maxUint64, Some ErrRange)
      else
        let n1 = n * 10 + digit_val c
        in if maxUint64 < n1 then (maxUint64, Some ErrRange)
           else ParseUint_loop rest n1)"

definition ParseUint :: "string \<Rightarrow> int \<times> NumError option" where
  "ParseUint s = (if s = [] then (0, Some ErrSyntax) else ParseUint_loop s 0)"

text \<open>The leading sign of a string: whether it is a minus, and the rest of the string.\<close>

definition strip_sign :: "string \<Rightarrow> bool \<times> string" where
  "strip_sign s =
     (case s of
        [] \<Rightarrow> (False, [])
      | c # r \<Rightarrow> if c = CHR ''-'' then (True, r) else if c = CHR ''+'' then (False, r) else (False, s))"

text \<open>
  \<^verbatim>\<open>ParseInt\<close> gives up on a syntax error of \<^verbatim>\<open>ParseUint\<close>, and keeps a range error: the value
  is then clamped to the bounds of \<^verbatim>\<open>int\<close>.
\<close>

definition ParseInt :: "string \<Rightarrow> int \<times> NumError option" where
  "ParseInt s =
     (if s = [] then (0, Some ErrSyntax)
      else
        let (neg, rest) = strip_sign s;
            (un, err) = ParseUint rest
        in if err = Some ErrSyntax then (0, Some ErrSyntax)
           else if \<not> neg \<and> maxInt + 1 \<le> un then (maxInt, Some ErrRange)
           else if neg \<and> maxInt + 1 < un then (minInt, Some ErrRange)
           else (if neg then - un else un, None))"

text \<open>
  \<^verbatim>\<open>Atoi\<close> has a fast path for strings of fewer than 19 bytes, which cannot leave the range of
  \<^verbatim>\<open>int\<close>; in its loop \<open>None\<close> is the syntax error. Every other string goes to \<^verbatim>\<open>ParseInt\<close>.
\<close>

fun Atoi_fast_loop :: "string \<Rightarrow> int \<Rightarrow> int option" where
  "Atoi_fast_loop [] n = Some n"
| "Atoi_fast_loop (ch # rest) n =
     (if \<not> is_digit ch then None else Atoi_fast_loop rest (n * 10 + digit_val ch))"

definition strconv_Atoi :: "string \<Rightarrow> int \<times> NumError option" where
  "strconv_Atoi s =
     (if 0 < length s \<and> length s < 19 then
        let (neg, rest) = strip_sign s
        in if rest = [] then (0, Some ErrSyntax)
           else (case Atoi_fast_loop rest 0 of
                   None \<Rightarrow> (0, Some ErrSyntax)
                 | Some n \<Rightarrow> (if neg then - n else n, None))
      else ParseInt s)"

text \<open>
  A well-formed decimal numeral is an optional sign followed by one or more digits;
  \<open>digits_val\<close> is the number that a string of digits denotes.
\<close>

definition digits_val :: "string \<Rightarrow> int" where
  "digits_val ds = foldl (\<lambda>n ch. n * 10 + digit_val ch) 0 ds"

definition well_formed_int :: "string \<Rightarrow> bool" where
  "well_formed_int s = (let ds = snd (strip_sign s) in ds \<noteq> [] \<and> list_all is_digit ds)"

text \<open>The integer that a well-formed numeral denotes.\<close>

definition numeral_val :: "string \<Rightarrow> int" where
  "numeral_val s =
     (case strip_sign s of (neg, ds) \<Rightarrow> if neg then - digits_val ds else digits_val ds)"

text \<open>
  The digits before the first byte that is not one: what \<^verbatim>\<open>ParseUint\<close> has read when it
  meets that byte.
\<close>

definition leading_digits :: "string \<Rightarrow> string" where
  "leading_digits s = takeWhile is_digit (snd (strip_sign s))"

section \<open>Helpers of the birdwatcher parser\<close>

text \<open>\<^verbatim>\<open>mustString\<close>: assert string, provide default.\<close>

definition mustString :: "json \<Rightarrow> string \<Rightarrow> string" where
  "mustString v fallback = (case string_ok v of (sval, ok) \<Rightarrow> if \<not> ok then fallback else sval)"

text \<open>
  \<^verbatim>\<open>mustStringList\<close>: the argument is asserted to be a list (panic otherwise); the loop keeps
  the elements that are strings and skips every other element.
\<close>

fun mustStringList_loop :: "json list \<Rightarrow> string list \<Rightarrow> string list" where
  "mustStringList_loop [] acc = acc"
| "mustStringList_loop (e # rest) acc =
     (case string_ok e of
        (s, ok) \<Rightarrow> if ok then mustStringList_loop rest (acc @ [s]) else mustStringList_loop rest acc)"

definition mustStringList :: "json \<Rightarrow> string list option" where
  "mustStringList data = do {
     ldata \<leftarrow> assert_list data;
     Some (mustStringList_loop ldata [])
   }"

text \<open>\<^verbatim>\<open>parseIntList\<close>: convert list of strings to int; the error of \<^verbatim>\<open>Atoi\<close> is dropped.\<close>

fun parseIntList_loop :: "string list \<Rightarrow> int list \<Rightarrow> int list" where
  "parseIntList_loop [] acc = acc"
| "parseIntList_loop (e # rest) acc = parseIntList_loop rest (acc @ [fst (strconv_Atoi e)])"

definition parseIntList :: "json \<Rightarrow> int list option" where
  "parseIntList data = do {
     sdata \<leftarrow> mustStringList data;
     Some (parseIntList_loop sdata [])
   }"

text \<open>\<^verbatim>\<open>parseBgpCommunities\<close>: extract bgp communities from response.\<close>

type_synonym Community = "int list"

fun community_loop :: "json list \<Rightarrow> Community \<Rightarrow> Community option" where
  "community_loop [] community = Some community"
| "community_loop (cinfo # rest) community = do {
     x \<leftarrow> assert_float64 cinfo;
     community_loop rest (community @ [float64_to_int x])
   }"

fun communities_loop :: "json list \<Rightarrow> Community list \<Rightarrow> Community list option" where
  "communities_loop [] communities = Some communities"
| "communities_loop (c # rest) communities = do {
     cdata \<leftarrow> assert_list c;
     community \<leftarrow> community_loop cdata [];
     communities_loop rest (communities @ [community])
   }"

definition parseBgpCommunities :: "json \<Rightarrow> Community list option" where
  "parseBgpCommunities data =
     (case list_ok data of
        (ldata, ok) \<Rightarrow> if \<not> ok then Some [] else communities_loop ldata [])"

text \<open>\<^verbatim>\<open>parseRouteBgpInfo\<close>: the fields of \<^verbatim>\<open>api.BgpInfo\<close> are those of the struct literal.\<close>

record BgpInfo =
  Origin :: string
  AsPath :: "int list"
  NextHop :: string
  LocalPref :: int
  Med :: int
  Communities :: "Community list"
  LargeCommunities :: "Community list"

definition parseRouteBgpInfo :: "json \<Rightarrow> BgpInfo option" where
  "parseRouteBgpInfo data = do {
     bgpData \<leftarrow> assert_map data;
     asPath \<leftarrow> parseIntList (index bgpData ''as_path'');
     communities \<leftarrow> parseBgpCommunities (index bgpData ''communities'');
     largeCommunities \<leftarrow> parseBgpCommunities (index bgpData ''large_communities'');
     localPrefStr \<leftarrow> assert_string (index bgpData ''local_pref'');
     let localPref = fst (strconv_Atoi localPrefStr);
     let (medInfo, ok) = string_ok (index bgpData ''med'');
     let med = (if ok then fst (strconv_Atoi medInfo) else 0);
     Some \<lparr>Origin = mustString (index bgpData ''origin'') ''unknown'',
           AsPath = asPath,
           NextHop = mustString (index bgpData ''next_hop'') ''unknown'',
           LocalPref = localPref,
           Med = med,
           Communities = communities,
           LargeCommunities = largeCommunities\<rparr>
   }"

section \<open>Server times\<close>

text \<open>
  A \<^verbatim>\<open>time.Time\<close> is modelled by its distance in nanoseconds from the zero time
  \<^verbatim>\<open>time.Time{}\<close>; a \<^verbatim>\<open>time.Duration\<close> is a 64-bit count of nanoseconds, and \<^verbatim>\<open>Time.Sub\<close>
  saturates at its bounds. An \<^verbatim>\<open>error\<close> is modelled by its message.
\<close>

type_synonym time = int
type_synonym Duration = int
type_synonym error = string

definition zero_time :: time where
  "zero_time = 0"

definition maxDuration :: Duration where
  "maxDuration = 9223372036854775807"

definition minDuration :: Duration where
  "minDuration = - 9223372036854775808"

definition time_Sub :: "time \<Rightarrow> time \<Rightarrow> Duration" where
  "time_Sub t u =
     (let d = t - u
      in if maxDuration < d then maxDuration else if d < minDuration then minDuration else d)"

text \<open>\<^verbatim>\<open>time.Since(t)\<close> is \<^verbatim>\<open>time.Now().Sub(t)\<close>; the reading of the clock is the argument \<open>now\<close>.\<close>

definition time_Since :: "time \<Rightarrow> time \<Rightarrow> Duration" where
  "time_Since now t = time_Sub now t"

text \<open>
  \<^verbatim>\<open>time.LoadLocation\<close> and \<^verbatim>\<open>time.ParseInLocation\<close> depend on the time zone database of the
  host; the parser takes them as they are, and so does the model.
\<close>

record timelib =
  LoadLocation :: "string \<Rightarrow> error + string"
  ParseInLocation :: "string \<Rightarrow> string \<Rightarrow> string \<Rightarrow> time \<times> error option"

definition SERVER_TIME_SHORT :: string where
  "SERVER_TIME_SHORT = ''2006-01-02 15:04:05''"

text \<open>The only field of the birdwatcher \<^verbatim>\<open>Config\<close> that the parsers read.\<close>

record birdwatcher_Config =
  Timezone :: string

text \<open>\<^verbatim>\<open>parseServerTime\<close>: convert server time string to time.\<close>

definition parseServerTime :: "timelib \<Rightarrow> json \<Rightarrow> string \<Rightarrow> string \<Rightarrow> time \<times> error option" where
  "parseServerTime lib v layout timezone =
     (case string_ok v of
        (svalue, ok) \<Rightarrow>
          if \<not> ok then (zero_time, None)
          else (case LoadLocation lib timezone of
                  Inl err \<Rightarrow> (zero_time, Some err)
                | Inr loc \<Rightarrow> ParseInLocation lib layout svalue loc))"

text \<open>
  \<^verbatim>\<open>parseRelativeServerTime\<close>: the error of \<^verbatim>\<open>parseServerTime\<close> is dropped. One call of a
  parser is taken to happen at one instant: every \<^verbatim>\<open>time.Since\<close> of the call reads the same
  \<open>now\<close>.
\<close>

definition parseRelativeServerTime :: "timelib \<Rightarrow> time \<Rightarrow> json \<Rightarrow> birdwatcher_Config \<Rightarrow> Duration" where
  "parseRelativeServerTime lib now uptime config =
     (let serverTime = fst (parseServerTime lib uptime SERVER_TIME_SHORT (Timezone config))
      in time_Since now serverTime)"

section \<open>Neighbours\<close>

text \<open>The fields of \<^verbatim>\<open>api.Neighbour\<close> are those of the struct literal in \<^verbatim>\<open>parseNeighbours\<close>.\<close>

record Neighbour =
  Neighbour_Id :: string
  Address :: string
  Asn :: int
  Neighbour_State :: string
  Description :: string
  RoutesReceived :: int
  RoutesExported :: int
  RoutesFiltered :: int
  RoutesPreferred :: int
  Uptime :: Duration
  Neighbour_LastError :: string
  Neighbour_Details :: jmap

text \<open>The body of the loop over the protocols map, for one entry.\<close>

definition parseNeighbour ::
  "timelib \<Rightarrow> birdwatcher_Config \<Rightarrow> time \<Rightarrow> string \<Rightarrow> json \<Rightarrow> Neighbour option" where
  "parseNeighbour lib config now protocolId proto = do {
     protocol \<leftarrow> assert_map proto;
     routes \<leftarrow> assert_map (index protocol ''routes'');
     let uptime = parseRelativeServerTime lib now (index protocol ''state_changed'') config;
     let lastError = mustString (index protocol ''last_error'') [];
     address \<leftarrow> assert_string (index protocol ''neighbor_address'');
     asn \<leftarrow> assert_float64 (index protocol ''neighbor_as'');
     state \<leftarrow> assert_string (index protocol ''state'');
     description \<leftarrow> assert_string (index protocol ''description'');
     imported \<leftarrow> assert_float64 (index routes ''imported'');
     exported \<leftarrow> assert_float64 (index routes ''exported'');
     filtered \<leftarrow> assert_float64 (index routes ''filtered'');
     preferred \<leftarrow> assert_float64 (index routes ''preferred'');
     Some \<lparr>Neighbour_Id = protocolId,
           Address = address,
           Asn = float64_to_int asn,
           Neighbour_State = state,
           Description = description,
           RoutesReceived = float64_to_int imported,
           RoutesExported = float64_to_int exported,
           RoutesFiltered = float64_to_int filtered,
           RoutesPreferred = float64_to_int preferred,
           Uptime = uptime,
           Neighbour_LastError = lastError,
           Neighbour_Details = protocol\<rparr>
   }"

fun parseNeighbours_loop ::
  "timelib \<Rightarrow> birdwatcher_Config \<Rightarrow> time \<Rightarrow> (string \<times> json) list \<Rightarrow> Neighbour list
     \<Rightarrow> Neighbour list option" where
  "parseNeighbours_loop lib config now [] neighbours = Some neighbours"
| "parseNeighbours_loop lib config now ((protocolId, proto) # rest) neighbours = do {
     neighbour \<leftarrow> parseNeighbour lib config now protocolId proto;
     parseNeighbours_loop lib config now rest (neighbours @ [neighbour])
   }"

text \<open>
  \<^verbatim>\<open>parseNeighbours\<close>. The argument \<open>sort_Sort\<close> is \<^verbatim>\<open>sort.Sort\<close> at the type
  \<^verbatim>\<open>api.Neighbours\<close>, whose \<^verbatim>\<open>Len\<close>, \<^verbatim>\<open>Less\<close> and \<^verbatim>\<open>Swap\<close> are declared outside the
  parser. The second component of the result is the returned \<^verbatim>\<open>error\<close>.
\<close>

definition parseNeighbours ::
  "(Neighbour list \<Rightarrow> Neighbour list) \<Rightarrow> timelib \<Rightarrow> birdwatcher_Config \<Rightarrow> time \<Rightarrow> jmap
     \<Rightarrow> (Neighbour list \<times> error option) option" where
  "parseNeighbours sort_Sort lib config now bird = do {
     protocols \<leftarrow> assert_map (index bird ''protocols'');
     neighbours \<leftarrow> parseNeighbours_loop lib config now protocols [];
     Some (sort_Sort neighbours, None)
   }"

section \<open>Routes\<close>

record Route =
  Route_Id :: string
  NeighbourId :: string
  Network :: string
  Interface :: string
  Gateway :: string
  Metric :: int
  Age :: Duration
  Type :: "string list"
  Bgp :: BgpInfo
  Route_Details :: jmap

definition parseRoute :: "timelib \<Rightarrow> birdwatcher_Config \<Rightarrow> time \<Rightarrow> json \<Rightarrow> Route option" where
  "parseRoute lib config now data = do {
     rdata \<leftarrow> assert_map data;
     let age = parseRelativeServerTime lib now (index rdata ''age'') config;
     rtype \<leftarrow> mustStringList (index rdata ''type'');
     bgpInfo \<leftarrow> parseRouteBgpInfo (index rdata ''bgp'');
     ident \<leftarrow> assert_string (index rdata ''network'');
     neighbourId \<leftarrow> assert_string (index rdata ''from_protocol'');
     network \<leftarrow> assert_string (index rdata ''network'');
     interface \<leftarrow> assert_string (index rdata ''interface'');
     gateway \<leftarrow> assert_string (index rdata ''gateway'');
     metric \<leftarrow> assert_float64 (index rdata ''metric'');
     Some \<lparr>Route_Id = ident,
           NeighbourId = neighbourId,
           Network = network,
           Interface = interface,
           Gateway = gateway,
           Metric = float64_to_int metric,
           Age = age,
           Type = rtype,
           Bgp = bgpInfo,
           Route_Details = rdata\<rparr>
   }"

fun parseRoutes_loop ::
  "timelib \<Rightarrow> birdwatcher_Config \<Rightarrow> time \<Rightarrow> json list \<Rightarrow> Route list \<Rightarrow> Route list option" where
  "parseRoutes_loop lib config now [] routes = Some routes"
| "parseRoutes_loop lib config now (data # rest) routes = do {
     route \<leftarrow> parseRoute lib config now data;
     parseRoutes_loop lib config now rest (routes @ [route])
   }"

definition parseRoutes ::
  "(Route list \<Rightarrow> Route list) \<Rightarrow> timelib \<Rightarrow> birdwatcher_Config \<Rightarrow> time \<Rightarrow> jmap
     \<Rightarrow> (Route list \<times> error option) option" where
  "parseRoutes sort_Sort lib config now bird = do {
     birdRoutes \<leftarrow> assert_list (index bird ''routes'');
     routes \<leftarrow> parseRoutes_loop lib config now birdRoutes [];
     Some (sort_Sort routes, None)
   }"

section \<open>The routes store\<close>

definition STATE_INIT :: int where
  "STATE_INIT = 0"

definition STATE_READY :: int where
  "STATE_READY = 1"

definition STATE_UPDATING :: int where
  "STATE_UPDATING = 2"

definition STATE_ERROR :: int where
  "STATE_ERROR = 3"

text \<open>
  Modelled from the spec: the declaration of \<^verbatim>\<open>api.RoutesResponse\<close> is not among the sources;
  it is the bundle of the imported and the filtered routes of a full-table fetch.
\<close>

record RoutesResponse =
  Imported :: "Route list"
  Filtered :: "Route list"

record RoutesStats =
  Stats_Filtered :: int
  Stats_Imported :: int

record RouteServerStats =
  Stats_Name :: string
  Routes :: RoutesStats
  Stats_State :: string
  UpdatedAt :: time

record StoreStats =
  TotalRoutes :: RoutesStats
  RouteServers :: "RouteServerStats list"

record StoreStatus =
  LastRefresh :: time
  LastError :: "error option"
  State :: int

text \<open>
  Modelled from the spec: the declaration of \<^verbatim>\<open>SourceConfig\<close> is not among the sources; the store
  reads its display name, and obtains the source instance of a configuration with
  \<^verbatim>\<open>getInstance()\<close>, which the model takes as an argument.
\<close>

record SourceConfig =
  Name :: string

record Config =
  Sources :: "SourceConfig list"

text \<open>
  The three maps of the store are keyed by the source instance, an opaque comparable handle
  of type \<open>'src\<close>.
\<close>

record 'src RoutesStore =
  routesMap :: "'src \<rightharpoonup> RoutesResponse"
  statusMap :: "'src \<rightharpoonup> StoreStatus"
  configMap :: "'src \<rightharpoonup> SourceConfig"

text \<open>Reading a Go map at a missing key gives the zero value of the element type.\<close>

definition status_at :: "'src RoutesStore \<Rightarrow> 'src \<Rightarrow> StoreStatus" where
  "status_at self source =
     (case statusMap self source of
        None \<Rightarrow> \<lparr>LastRefresh = zero_time, LastError = None, State = 0\<rparr>
      | Some status \<Rightarrow> status)"

definition config_at :: "'src RoutesStore \<Rightarrow> 'src \<Rightarrow> SourceConfig" where
  "config_at self source =
     (case configMap self source of None \<Rightarrow> \<lparr>Name = []\<rparr> | Some c \<Rightarrow> c)"

text \<open>
  A \<^verbatim>\<open>range\<close> loop over a map visits each of its entries once, in an order that Go does not
  fix: \<open>visit\<close> lists the sources in the order of the visit, and the loop sees those of them
  that are keys of the map.
\<close>

definition range_map :: "('k \<rightharpoonup> 'v) \<Rightarrow> 'k list \<Rightarrow> ('k \<times> 'v) list" where
  "range_map m visit = List.map_filter (\<lambda>k. map_option (Pair k) (m k)) visit"

fun NewRoutesStore_loop ::
  "(SourceConfig \<Rightarrow> 'src) \<Rightarrow> SourceConfig list \<Rightarrow> 'src RoutesStore \<Rightarrow> 'src RoutesStore" where
  "NewRoutesStore_loop getInstance [] self = self"
| "NewRoutesStore_loop getInstance (source # rest) self =
     (let instance = getInstance source
      in NewRoutesStore_loop getInstance rest
           \<lparr>routesMap = (routesMap self)(instance \<mapsto> \<lparr>Imported = [], Filtered = []\<rparr>),
            statusMap = (statusMap self)(instance \<mapsto>
                          \<lparr>LastRefresh = zero_time, LastError = None, State = STATE_INIT\<rparr>),
            configMap = (configMap self)(instance \<mapsto> source)\<rparr>)"

definition NewRoutesStore :: "(SourceConfig \<Rightarrow> 'src) \<Rightarrow> Config \<Rightarrow> 'src RoutesStore" where
  "NewRoutesStore getInstance config =
     NewRoutesStore_loop getInstance (Sources config)
       \<lparr>routesMap = Map.empty, statusMap = Map.empty, configMap = Map.empty\<rparr>"

text \<open>
  The body of the loop of \<^verbatim>\<open>update\<close> for one source. \<open>fetch source\<close> is the result of the call
  \<^verbatim>\<open>source.AllRoutes()\<close> (\<open>Inl\<close> the error) and \<open>now source\<close> the reading of \<^verbatim>\<open>time.Now()\<close> when
  the call has returned. Beside the store, the body returns the values it has assigned to
  \<^verbatim>\<open>statusMap[source]\<close>, in program order.
\<close>

definition update_source ::
  "('src \<Rightarrow> error + RoutesResponse) \<Rightarrow> ('src \<Rightarrow> time) \<Rightarrow> 'src \<Rightarrow> 'src RoutesStore
     \<Rightarrow> 'src RoutesStore \<times> StoreStatus list" where
  "update_source fetch now source self =
     (if State (status_at self source) = STATE_UPDATING then (self, [])
      else
        let updating = \<lparr>LastRefresh = zero_time, LastError = None, State = STATE_UPDATING\<rparr>;
            self1 = self\<lparr>statusMap := (statusMap self)(source \<mapsto> updating)\<rparr>
        in case fetch source of
             Inl err \<Rightarrow>
               let failed = \<lparr>LastRefresh = now source, LastError = Some err, State = STATE_ERROR\<rparr>
               in (self1\<lparr>statusMap := (statusMap self1)(source \<mapsto> failed)\<rparr>, [updating, failed])
           | Inr routes \<Rightarrow>
               let self2 = self1\<lparr>routesMap := (routesMap self1)(source \<mapsto> routes)\<rparr>;
                   ready = \<lparr>LastRefresh = now source, LastError = None, State = STATE_READY\<rparr>
               in (self2\<lparr>statusMap := (statusMap self2)(source \<mapsto> ready)\<rparr>, [updating, ready]))"

text \<open>
  \<^verbatim>\<open>update\<close>: the loop over the keys of \<^verbatim>\<open>routesMap\<close>. The second component of the result is the
  sequence of the assignments to \<^verbatim>\<open>statusMap\<close>, each with its source.
\<close>

fun update_loop ::
  "('src \<Rightarrow> error + RoutesResponse) \<Rightarrow> ('src \<Rightarrow> time) \<Rightarrow> 'src list \<Rightarrow> 'src RoutesStore
     \<Rightarrow> 'src RoutesStore \<times> ('src \<times> StoreStatus) list" where
  "update_loop fetch now [] self = (self, [])"
| "update_loop fetch now (source # rest) self =
     (let (self1, writes) = update_source fetch now source self;
          (self2, later) = update_loop fetch now rest self1
      in (self2, map (Pair source) writes @ later))"

definition update ::
  "('src \<Rightarrow> error + RoutesResponse) \<Rightarrow> ('src \<Rightarrow> time) \<Rightarrow> 'src list \<Rightarrow> 'src RoutesStore
     \<Rightarrow> 'src RoutesStore \<times> ('src \<times> StoreStatus) list" where
  "update fetch now visit self =
     update_loop fetch now (map fst (range_map (routesMap self) visit)) self"

definition stateToString :: "int \<Rightarrow> string" where
  "stateToString state =
     (if state = STATE_INIT then ''INIT''
      else if state = STATE_READY then ''READY''
      else if state = STATE_UPDATING then ''UPDATING''
      else if state = STATE_ERROR then ''ERROR''
      else ''INVALID'')"

text \<open>\<^verbatim>\<open>Stats\<close>: calculate store insights.\<close>

fun Stats_loop ::
  "'src RoutesStore \<Rightarrow> ('src \<times> RoutesResponse) list \<Rightarrow> int \<Rightarrow> int \<Rightarrow> RouteServerStats list
     \<Rightarrow> int \<times> int \<times> RouteServerStats list" where
  "Stats_loop self [] totalImported totalFiltered rsStats = (totalImported, totalFiltered, rsStats)"
| "Stats_loop self ((source, routes) # rest) totalImported totalFiltered rsStats =
     (let status = status_at self source;
          serverStats =
            \<lparr>Stats_Name = Name (config_at self source),
             Routes = \<lparr>Stats_Filtered = int (length (Filtered routes)),
                       Stats_Imported = int (length (Imported routes))\<rparr>,
             Stats_State = stateToString (State status),
             UpdatedAt = LastRefresh status\<rparr>
      in Stats_loop self rest
           (totalImported + int (length (Imported routes)))
           (totalFiltered + int (length (Filtered routes)))
           (rsStats @ [serverStats]))"

definition Stats :: "'src list \<Rightarrow> 'src RoutesStore \<Rightarrow> StoreStats" where
  "Stats visit self =
     (case Stats_loop self (range_map (routesMap self) visit) 0 0 [] of
        (totalImported, totalFiltered, rsStats) \<Rightarrow>
          \<lparr>TotalRoutes = \<lparr>Stats_Filtered = totalFiltered, Stats_Imported = totalImported\<rparr>,
           RouteServers = rsStats\<rparr>)"

text \<open>
  Modelled from the spec: the declaration of \<^verbatim>\<open>api.LookupRoute\<close> is not among the sources; it is a
  cached route tagged with the backend it comes from.
\<close>

record 'src LookupRoute =
  Routeserver :: 'src
  Lookup_Route :: Route

definition Lookup :: "'src RoutesStore \<Rightarrow> string \<Rightarrow> 'src LookupRoute list" where
  "Lookup self prefix = (let result = [] in result)"

section \<open>The prefix lookup endpoint\<close>

text \<open>
  The query of a request, \<^verbatim>\<open>req.URL.Query()\<close>, maps a key to the list of its values. A helper
  returns a value together with an \<^verbatim>\<open>error\<close> (\<open>None\<close> is \<^verbatim>\<open>nil\<close>).
\<close>

definition validateQueryString :: "(string \<rightharpoonup> string list) \<Rightarrow> string \<Rightarrow> string \<times> error option" where
  "validateQueryString query key =
     (case query key of
        None \<Rightarrow> ([], Some (''Query param '' @ key @ '' is missing.''))
      | Some vals \<Rightarrow>
          if length vals \<noteq> 1 then ([], Some (''Query param '' @ key @ '' is ambigous.''))
          else
            let val = vals ! 0
            in if val = [] then ([], Some (''Query param '' @ key @ '' may not be empty.''))
               else (val, None))"

definition validatePrefixQuery :: "string \<Rightarrow> string \<times> error option" where
  "validatePrefixQuery val =
     (if length val < 2 then ([], Some ''Query too short'') else (val, None))"

record 'src LookupResponseGlobal =
  Response_Routes :: "'src LookupRoute list"
  Response_Time :: rat

text \<open>
  \<^verbatim>\<open>apiLookupPrefixGlobal\<close>, with the readings \<open>t0\<close> and \<open>t1\<close> of the clock before and after the
  lookup. The result is the error (\<open>Inl\<close>) or the response; the second component lists the
  prefixes with which the handler has called \<^verbatim>\<open>AliceRoutesStore.Lookup\<close>. The time of the
  response is the exact quotient; the code computes it in \<^verbatim>\<open>float64\<close>, which rounds it.
\<close>

definition apiLookupPrefixGlobal ::
  "'src RoutesStore \<Rightarrow> time \<Rightarrow> time \<Rightarrow> (string \<rightharpoonup> string list)
     \<Rightarrow> (error + 'src LookupResponseGlobal) \<times> string list" where
  "apiLookupPrefixGlobal AliceRoutesStore t0 t1 query =
     (case validateQueryString query ''q'' of
        (prefix, Some err) \<Rightarrow> (Inl err, [])
      | (prefix, None) \<Rightarrow>
          (case validatePrefixQuery prefix of
             (prefix1, Some err) \<Rightarrow> (Inl err, [])
           | (prefix1, None) \<Rightarrow>
               let routes = Lookup AliceRoutesStore prefix1;
                   queryDuration = time_Since t1 t0
               in (Inr \<lparr>Response_Routes = routes,
                        Response_Time = of_int queryDuration / 1000 / 1000\<rparr>,
                   [prefix1])))"

section \<open>Sequences of refresh cycles\<close>





section \<open>Shapes of raw values\<close>

text \<open>
  The shape of a communities value on which \<^verbatim>\<open>parseBgpCommunities\<close> returns: anything that is
  not a list, or a list whose elements are lists of numbers.
\<close>

definition is_number :: "json \<Rightarrow> bool" where
  "is_number v = (case v of JNum x \<Rightarrow> True | _ \<Rightarrow> False)"

definition is_string :: "json \<Rightarrow> bool" where
  "is_string v = (case v of JStr s \<Rightarrow> True | _ \<Rightarrow> False)"

definition is_number_list :: "json \<Rightarrow> bool" where
  "is_number_list v = (case v of JArr xs \<Rightarrow> list_all is_number xs | _ \<Rightarrow> False)"

definition well_shaped_communities :: "json \<Rightarrow> bool" where
  "well_shaped_communities v = (case v of JArr cs \<Rightarrow> list_all is_number_list cs | _ \<Rightarrow> True)"

text \<open>
  The mandatory fields of a protocol entry that the specification names: the neighbour
  address, the ASN, the state and the four route counters.
\<close>

definition mandatory_fields_present :: "json \<Rightarrow> bool" where
  "mandatory_fields_present proto =
     (case proto of
        JObj protocol \<Rightarrow>
          is_string (index protocol ''neighbor_address'') \<and>
          is_number (index protocol ''neighbor_as'') \<and>
          is_string (index protocol ''state'') \<and>
          (case index protocol ''routes'' of
             JObj routes \<Rightarrow>
               is_number (index routes ''imported'') \<and>
               is_number (index routes ''exported'') \<and>
               is_number (index routes ''filtered'') \<and>
               is_number (index routes ''preferred'')
           | _ \<Rightarrow> False)
      | _ \<Rightarrow> False)"

section \<open>The order of the neighbours and of the routes\<close>

text \<open>
  Modelled from the spec: the \<^verbatim>\<open>Less\<close> method of \<^verbatim>\<open>api.Neighbours\<close> is not among the sources. The
  specification sorts the neighbours by a total order over their natural key, the
  identifier; identifiers are compared as Go compares strings, byte by byte.
\<close>

definition Neighbours_Less :: "Neighbour \<Rightarrow> Neighbour \<Rightarrow> bool" where
  "Neighbours_Less a b = (Neighbour_Id a < Neighbour_Id b)"

text \<open>
  Modelled from the spec: the \<^verbatim>\<open>Less\<close> method of \<^verbatim>\<open>api.Routes\<close> is not among the sources. The
  specification sorts the routes by network, then by next hop.
\<close>

definition Routes_key :: "Route \<Rightarrow> string \<times> string" where
  "Routes_key r = (Network r, NextHop (Bgp r))"

definition Routes_Less :: "Route \<Rightarrow> Route \<Rightarrow> bool" where
  "Routes_Less a b = (Routes_key a < Routes_key b)"

text \<open>
  What \<^verbatim>\<open>sort.Sort\<close> guarantees for its result: the elements of the input, in ascending order
  as determined by \<^verbatim>\<open>Less\<close>. The sort is not stable, and nothing more is assumed of it.
\<close>

definition sorts_by :: "('a \<Rightarrow> 'a \<Rightarrow> bool) \<Rightarrow> ('a list \<Rightarrow> 'a list) \<Rightarrow> bool" where
  "sorts_by lt sort_Sort =
     (\<forall>xs. mset (sort_Sort xs) = mset xs \<and> sorted_wrt (\<lambda>a b. \<not> lt b a) (sort_Sort xs))"

section \<open>An entity parsed at another instant\<close>

text \<open>
  A neighbour keeps the raw protocol entry in its details, and a route the raw route. The
  time of the last change is read from them as the parser reads it, and the duration field
  is what \<^verbatim>\<open>time.Since\<close> gives for it at the instant \<open>now\<close>.
\<close>

definition state_changed :: "timelib \<Rightarrow> birdwatcher_Config \<Rightarrow> Neighbour \<Rightarrow> time" where
  "state_changed lib config n =
     fst (parseServerTime lib (index (Neighbour_Details n) ''state_changed'') SERVER_TIME_SHORT
            (Timezone config))"

definition neighbour_at :: "timelib \<Rightarrow> birdwatcher_Config \<Rightarrow> time \<Rightarrow> Neighbour \<Rightarrow> Neighbour" where
  "neighbour_at lib config now n = n\<lparr>Uptime := time_Since now (state_changed lib config n)\<rparr>"

definition age_changed :: "timelib \<Rightarrow> birdwatcher_Config \<Rightarrow> Route \<Rightarrow> time" where
  "age_changed lib config r =
     fst (parseServerTime lib (index (Route_Details r) ''age'') SERVER_TIME_SHORT
            (Timezone config))"

definition route_at :: "timelib \<Rightarrow> birdwatcher_Config \<Rightarrow> time \<Rightarrow> Route \<Rightarrow> Route" where
  "route_at lib config now r = r\<lparr>Age := time_Since now (age_changed lib config r)\<rparr>"

section \<open>Example data\<close>

text \<open>
  A time library in which every zone loads and every server time reads 2020-01-01 00:00:00
  UTC, and a clock that reads one hour later.
\<close>

definition example_lib :: timelib where
  "example_lib =
     \<lparr>LoadLocation = (\<lambda>timezone. Inr timezone),
      ParseInLocation = (\<lambda>layout v loc. (63713433600000000000, None))\<rparr>"

definition example_now :: time where
  "example_now = 63713437200000000000"

text \<open>The clock one minute after that.\<close>

definition example_later :: time where
  "example_later = 63713437260000000000"

text \<open>Two route servers, \<open>rs1\<close> (source \<open>0\<close>) and \<open>rs2\<close> (source \<open>1\<close>), and their tables.\<close>

definition example_route :: "string \<Rightarrow> Route" where
  "example_route network =
     \<lparr>Route_Id = network, NeighbourId = ''ID1'', Network = network, Interface = ''eth0'',
      Gateway = ''10.0.0.1'', Metric = 0, Age = 0, Type = [''BGP''],
      Bgp = \<lparr>Origin = ''IGP'', AsPath = [65001], NextHop = ''10.0.0.1'', LocalPref = 100,
             Med = 0, Communities = [], LargeCommunities = []\<rparr>,
      Route_Details = []\<rparr>"

definition example_getInstance :: "SourceConfig \<Rightarrow> nat" where
  "example_getInstance c = (if Name c = ''rs1'' then 0 else 1)"

definition example_config :: Config where
  "example_config = \<lparr>Sources = [\<lparr>Name = ''rs1''\<rparr>, \<lparr>Name = ''rs2''\<rparr>]\<rparr>"

definition example_fetch :: "nat \<Rightarrow> error + RoutesResponse" where
  "example_fetch source =
     (if source = 0 then Inr \<lparr>Imported = [example_route ''10.0.0.0/24''], Filtered = []\<rparr>
      else Inr \<lparr>Imported = [example_route ''192.168.0.0/16''], Filtered = []\<rparr>)"

definition example_failing_fetch :: "nat \<Rightarrow> error + RoutesResponse" where
  "example_failing_fetch source = Inl ''connection refused''"

text \<open>The store after one refresh in which both route servers answered.\<close>

definition example_store :: "nat RoutesStore" where
  "example_store =
     fst (update example_fetch (\<lambda>source. 1000) [0, 1]
            (NewRoutesStore example_getInstance example_config))"



text \<open>A BGP attribute block without origin and MED, whose local preference is not a number.\<close>

definition example_bgp :: jmap where
  "example_bgp =
     [(''as_path'', JArr [JStr ''65001'']),
      (''local_pref'', JStr ''high''),
      (''next_hop'', JStr ''10.0.0.1'')]"

text \<open>An insertion sort of the neighbours by identifier.\<close>

definition example_sort :: "Neighbour list \<Rightarrow> Neighbour list" where
  "example_sort = sort_key Neighbour_Id"

text \<open>Protocol entries of a neighbours response: a complete one, and defective ones.\<close>

definition example_protocol_fields :: "string \<Rightarrow> rat \<Rightarrow> jmap" where
  "example_protocol_fields address asn =
     [(''neighbor_address'', JStr address),
      (''neighbor_as'', JNum asn),
      (''state'', JStr ''up''),
      (''description'', JStr ''peer''),
      (''state_changed'', JStr ''2020-01-01 00:00:00''),
      (''routes'', JObj [(''imported'', JNum 10), (''exported'', JNum 5),
                         (''filtered'', JNum 2), (''preferred'', JNum 7)])]"

definition example_protocol :: "string \<Rightarrow> rat \<Rightarrow> json" where
  "example_protocol address asn = JObj (example_protocol_fields address asn)"

definition example_protocol_without_address :: json where
  "example_protocol_without_address =
     JObj [(''neighbor_as'', JNum 65002),
           (''state'', JStr ''up''),
           (''description'', JStr ''peer''),
           (''routes'', JObj [(''imported'', JNum 10), (''exported'', JNum 5),
                              (''filtered'', JNum 2), (''preferred'', JNum 7)])]"

definition example_protocol_string_asn :: json where
  "example_protocol_string_asn =
     JObj [(''neighbor_address'', JStr ''10.0.0.2''),
           (''neighbor_as'', JStr ''65002''),
           (''state'', JStr ''up''),
           (''description'', JStr ''peer''),
           (''routes'', JObj [(''imported'', JNum 10), (''exported'', JNum 5),
                              (''filtered'', JNum 2), (''preferred'', JNum 7)])]"

definition example_config_utc :: birdwatcher_Config where
  "example_config_utc = \<lparr>Timezone = ''UTC''\<rparr>"

text \<open>A neighbours response with two protocols, as two visits of its map may see it.\<close>

definition example_bird :: jmap where
  "example_bird =
     [(''protocols'', JObj [(''ID2'', example_protocol ''10.0.0.2'' 65002),
                            (''ID1'', example_protocol ''10.0.0.1'' 65001)])]"

definition example_bird_revisited :: jmap where
  "example_bird_revisited =
     [(''protocols'', JObj [(''ID1'', example_protocol ''10.0.0.1'' 65001),
                            (''ID2'', example_protocol ''10.0.0.2'' 65002)])]"

text \<open>The neighbour that the parser makes of such a protocol entry.\<close>

definition example_neighbour :: "string \<Rightarrow> string \<Rightarrow> int \<Rightarrow> Duration \<Rightarrow> Neighbour" where
  "example_neighbour ident address asn uptime =
     \<lparr>Neighbour_Id = ident, Address = address, Asn = asn, Neighbour_State = ''up'',
      Description = ''peer'', RoutesReceived = 10, RoutesExported = 5, RoutesFiltered = 2,
      RoutesPreferred = 7, Uptime = uptime, Neighbour_LastError = [],
      Neighbour_Details = example_protocol_fields address (of_int asn)\<rparr>"

text \<open>A routes response with two routes, and the route that the parser makes of each.\<close>

definition example_route_fields :: "string \<Rightarrow> jmap" where
  "example_route_fields network =
     [(''network'', JStr network),
      (''from_protocol'', JStr ''ID1''),
      (''interface'', JStr ''eth0''),
      (''gateway'', JStr ''10.0.0.1''),
      (''metric'', JNum 100),
      (''age'', JStr ''2020-01-01 00:00:00''),
      (''type'', JArr [JStr ''BGP'', JStr ''unicast'']),
      (''bgp'', JObj [(''origin'', JStr ''IGP''),
                      (''as_path'', JArr [JStr ''65001'']),
                      (''next_hop'', JStr ''10.0.0.1''),
                      (''local_pref'', JStr ''100'')])]"

definition example_routes_bird :: jmap where
  "example_routes_bird =
     [(''routes'', JArr [JObj (example_route_fields ''192.168.0.0/16''),
                         JObj (example_route_fields ''10.0.0.0/24'')])]"

definition example_parsed_route :: "string \<Rightarrow> Duration \<Rightarrow> Route" where
  "example_parsed_route network age =
     \<lparr>Route_Id = network, NeighbourId = ''ID1'', Network = network, Interface = ''eth0'',
      Gateway = ''10.0.0.1'', Metric = 100, Age = age, Type = [''BGP'', ''unicast''],
      Bgp = \<lparr>Origin = ''IGP'', AsPath = [65001], NextHop = ''10.0.0.1'', LocalPref = 100,
             Med = 0, Communities = [], LargeCommunities = []\<rparr>,
      Route_Details = example_route_fields network\<rparr>"

text \<open>An insertion sort of the routes by network and next hop.\<close>

definition example_sort_routes :: "Route list \<Rightarrow> Route list" where
  "example_sort_routes = sort_key Routes_key"

section \<open>The refresh of one source inside a cycle\<close>

lemma range_map_keys: "map fst (range_map m visit) = filter (\<lambda>k. m k \<noteq> None) visit"
  by (induction visit) (auto simp: range_map_def List.map_filter_def)

lemma range_map_all:
  "set visit \<subseteq> dom m \<Longrightarrow> range_map m visit = map (\<lambda>k. (k, the (m k))) visit"
  by (induction visit) (auto simp: range_map_def List.map_filter_def)

lemma status_at_cong:
  "statusMap a source = statusMap b source \<Longrightarrow> status_at a source = status_at b source"
  by (simp add: status_at_def)

lemma update_source_other:
  assumes "other \<noteq> source"
  shows "routesMap (fst (update_source fetch now other self)) source = routesMap self source"
    and "statusMap (fst (update_source fetch now other self)) source = statusMap self source"
  using assms by (auto simp: update_source_def Let_def split: sum.splits)

lemma update_source_configMap:
  "configMap (fst (update_source fetch now source self)) = configMap self"
  by (auto simp: update_source_def Let_def split: sum.splits)

lemma update_source_routes_at:
  "routesMap (fst (update_source fetch now source self)) source =
     (if State (status_at self source) = STATE_UPDATING then routesMap self source
      else case fetch source of Inl err \<Rightarrow> routesMap self source | Inr routes \<Rightarrow> Some routes)"
  by (auto simp: update_source_def Let_def split: sum.splits)

lemma update_source_status_at:
  "statusMap (fst (update_source fetch now source self)) source =
     (if State (status_at self source) = STATE_UPDATING then statusMap self source
      else case fetch source of
             Inl err \<Rightarrow> Some \<lparr>LastRefresh = now source, LastError = Some err, State = STATE_ERROR\<rparr>
           | Inr routes \<Rightarrow> Some \<lparr>LastRefresh = now source, LastError = None, State = STATE_READY\<rparr>)"
  by (auto simp: update_source_def Let_def split: sum.splits)

lemma update_source_writes:
  "snd (update_source fetch now source self) =
     (if State (status_at self source) = STATE_UPDATING then []
      else [\<lparr>LastRefresh = zero_time, LastError = None, State = STATE_UPDATING\<rparr>,
            case fetch source of
              Inl err \<Rightarrow> \<lparr>LastRefresh = now source, LastError = Some err, State = STATE_ERROR\<rparr>
            | Inr routes \<Rightarrow> \<lparr>LastRefresh = now source, LastError = None, State = STATE_READY\<rparr>])"
  by (auto simp: update_source_def Let_def split: sum.splits)


lemma update_loop_Cons:
  "fst (update_loop fetch now (x # xs) self) = fst (update_loop fetch now xs (fst (update_source fetch now x self)))"
  "snd (update_loop fetch now (x # xs) self) =
     map (Pair x) (snd (update_source fetch now x self)) @ snd (update_loop fetch now xs (fst (update_source fetch now x self)))"
  by (simp_all add: case_prod_unfold Let_def)

lemma update_loop_other:
  "source \<notin> set visit \<Longrightarrow>
     routesMap (fst (update_loop fetch now visit self)) source = routesMap self source \<and>
     statusMap (fst (update_loop fetch now visit self)) source = statusMap self source \<and>
     filter (\<lambda>w. fst w = source) (snd (update_loop fetch now visit self)) = []"
proof (induction visit arbitrary: self)
  case Nil
  show ?case by simp
next
  case (Cons x xs)
  then have ne: "x \<noteq> source" and "source \<notin> set xs" by auto
  then have ih: "routesMap (fst (update_loop fetch now xs (fst (update_source fetch now x self)))) source
       = routesMap (fst (update_source fetch now x self)) source \<and>
     statusMap (fst (update_loop fetch now xs (fst (update_source fetch now x self)))) source
       = statusMap (fst (update_source fetch now x self)) source \<and>
     filter (\<lambda>w. fst w = source) (snd (update_loop fetch now xs (fst (update_source fetch now x self)))) = []"
    using Cons.IH by blast
  have f: "filter (\<lambda>w. fst w = source) (map (Pair x) (snd (update_source fetch now x self))) = []"
    using ne by (simp add: filter_empty_conv)
  show ?case
    unfolding update_loop_Cons using ih f ne
    by (simp add: update_source_other)
qed


lemma update_loop_configMap:
  "configMap (fst (update_loop fetch now visit self)) = configMap self"
proof (induction visit arbitrary: self)
  case Nil
  show ?case by simp
next
  case (Cons x xs)
  show ?case unfolding update_loop_Cons by (simp add: Cons.IH update_source_configMap)
qed

lemma update_source_at_cong:
  assumes "statusMap a source = statusMap b source" and "routesMap a source = routesMap b source"
  shows "routesMap (fst (update_source fetch now source a)) source
           = routesMap (fst (update_source fetch now source b)) source"
    and "statusMap (fst (update_source fetch now source a)) source
           = statusMap (fst (update_source fetch now source b)) source"
    and "snd (update_source fetch now source a) = snd (update_source fetch now source b)"
  using assms status_at_cong[OF assms(1)]
  by (simp_all add: update_source_routes_at update_source_status_at update_source_writes
        split: sum.splits)

lemma update_loop_at:
  "distinct visit \<Longrightarrow> source \<in> set visit \<Longrightarrow>
     routesMap (fst (update_loop fetch now visit self)) source
       = routesMap (fst (update_source fetch now source self)) source \<and>
     statusMap (fst (update_loop fetch now visit self)) source
       = statusMap (fst (update_source fetch now source self)) source \<and>
     filter (\<lambda>w. fst w = source) (snd (update_loop fetch now visit self))
       = map (Pair source) (snd (update_source fetch now source self))"
proof (induction visit arbitrary: self)
  case Nil
  then show ?case by simp
next
  case (Cons x xs)
  let ?s1 = "fst (update_source fetch now x self)"
  show ?case
  proof (cases "x = source")
    case True
    with Cons.prems have "source \<notin> set xs" by simp
    from update_loop_other[OF this, of fetch now "fst (update_source fetch now source self)"]
    show ?thesis unfolding update_loop_Cons using True
      by (simp add: filter_id_conv)
  next
    case False
    with Cons.prems have d: "distinct xs" and m: "source \<in> set xs" by simp_all
    have c: "statusMap ?s1 source = statusMap self source" "routesMap ?s1 source = routesMap self source"
      using False by (simp_all add: update_source_other)
    have f: "filter (\<lambda>w. fst w = source) (map (Pair x) (snd (update_source fetch now x self))) = []"
      using False by (simp add: filter_empty_conv)
    show ?thesis
      unfolding update_loop_Cons
      using Cons.IH[OF d m, of ?s1] update_source_at_cong[OF c, of fetch now] f
      by simp
  qed
qed


lemma update_at:
  assumes "distinct visit" and "source \<in> set visit" and "routesMap self source \<noteq> None"
  shows "routesMap (fst (update fetch now visit self)) source
           = routesMap (fst (update_source fetch now source self)) source \<and>
         statusMap (fst (update fetch now visit self)) source
           = statusMap (fst (update_source fetch now source self)) source \<and>
         filter (\<lambda>w. fst w = source) (snd (update fetch now visit self))
           = map (Pair source) (snd (update_source fetch now source self))"
proof -
  have "distinct (filter (\<lambda>k. routesMap self k \<noteq> None) visit)"
    and "source \<in> set (filter (\<lambda>k. routesMap self k \<noteq> None) visit)"
    using assms by simp_all
  from update_loop_at[OF this] show ?thesis
    by (simp add: update_def range_map_keys)
qed

lemma update_configMap: "configMap (fst (update fetch now visit self)) = configMap self"
  by (simp add: update_def update_loop_configMap)

lemma Stats_loop_servers:
  "snd (snd (Stats_loop self entries totalImported totalFiltered rsStats)) =
     rsStats @ map (\<lambda>(source, routes).
        \<lparr>Stats_Name = Name (config_at self source),
         Routes = \<lparr>Stats_Filtered = int (length (Filtered routes)),
                   Stats_Imported = int (length (Imported routes))\<rparr>,
         Stats_State = stateToString (State (status_at self source)),
         UpdatedAt = LastRefresh (status_at self source)\<rparr>) entries"
  by (induction entries arbitrary: totalImported totalFiltered rsStats) (auto simp: Let_def)

lemma Stats_servers_nth:
  assumes "set visit \<subseteq> dom (routesMap self)" and "i < length visit"
    and "routesMap self (visit ! i) = Some routes"
  shows "RouteServers (Stats visit self) ! i =
     \<lparr>Stats_Name = Name (config_at self (visit ! i)),
      Routes = \<lparr>Stats_Filtered = int (length (Filtered routes)),
                Stats_Imported = int (length (Imported routes))\<rparr>,
      Stats_State = stateToString (State (status_at self (visit ! i))),
      UpdatedAt = LastRefresh (status_at self (visit ! i))\<rparr>"
proof -
  have "RouteServers (Stats visit self) =
     snd (snd (Stats_loop self (range_map (routesMap self) visit) 0 0 []))"
    by (simp add: Stats_def split: prod.splits)
  then show ?thesis
    using assms by (simp add: Stats_loop_servers range_map_all)
qed











lemma example_store_value:
  "example_store =
     \<lparr>routesMap = [1 \<mapsto> \<lparr>Imported = [example_route ''192.168.0.0/16''], Filtered = []\<rparr>,
                   0 \<mapsto> \<lparr>Imported = [example_route ''10.0.0.0/24''], Filtered = []\<rparr>],
      statusMap = [1 \<mapsto> \<lparr>LastRefresh = 1000, LastError = None, State = STATE_READY\<rparr>,
                   0 \<mapsto> \<lparr>LastRefresh = 1000, LastError = None, State = STATE_READY\<rparr>],
      configMap = [0 \<mapsto> \<lparr>Name = ''rs1''\<rparr>, 1 \<mapsto> \<lparr>Name = ''rs2''\<rparr>]\<rparr>"
  apply (simp add: example_store_def update_def NewRoutesStore_def example_config_def
      example_getInstance_def range_map_def List.map_filter_def update_source_def status_at_def
      example_fetch_def STATE_INIT_def STATE_UPDATING_def STATE_READY_def Let_def)
  apply (auto simp: fun_eq_iff)
  done

section \<open>The loops of the parser\<close>

lemma mustStringList_loop_strings: "mustStringList_loop (map JStr ss) acc = acc @ ss"
  by (induction ss arbitrary: acc) simp_all

lemma mustStringList_loop_any:
  "mustStringList_loop xs acc
     = acc @ concat (map (\<lambda>e. case e of JStr s \<Rightarrow> [s] | _ \<Rightarrow> []) xs)"
proof (induction xs arbitrary: acc)
  case Nil
  show ?case by simp
next
  case (Cons x xs)
  show ?case by (cases x) (simp_all add: Cons.IH)
qed

lemma parseIntList_loop_map:
  "parseIntList_loop ss acc = acc @ map (\<lambda>s. fst (strconv_Atoi s)) ss"
  by (induction ss arbitrary: acc) simp_all

lemma float64_to_int_in_range:
  "minInt \<le> trunc_toward_zero x \<Longrightarrow> trunc_toward_zero x \<le> maxInt \<Longrightarrow>
     float64_to_int x = trunc_toward_zero x"
  by (simp add: float64_to_int_def)

lemma community_loop_numbers:
  "community_loop (map JNum xs) acc = Some (acc @ map float64_to_int xs)"
  by (induction xs arbitrary: acc) simp_all

lemma communities_loop_lists:
  "communities_loop (map (\<lambda>c. JArr (map JNum c)) css) acc
     = Some (acc @ map (map float64_to_int) css)"
  by (induction css arbitrary: acc) (simp_all add: community_loop_numbers)

lemma is_number_iff: "is_number v = (\<exists>x. v = JNum x)"
  by (cases v) (simp_all add: is_number_def)

lemma is_number_list_iff: "is_number_list v = (\<exists>xs. v = JArr xs \<and> list_all is_number xs)"
  by (cases v) (simp_all add: is_number_list_def)

lemma community_loop_returns:
  "(community_loop xs acc = None) = (\<not> list_all is_number xs)"
proof (induction xs arbitrary: acc)
  case Nil
  show ?case by simp
next
  case (Cons x xs)
  show ?case by (cases x) (simp_all add: Cons.IH is_number_iff)
qed

lemma communities_loop_returns:
  "(communities_loop cs acc = None) = (\<not> list_all is_number_list cs)"
proof (induction cs arbitrary: acc)
  case Nil
  show ?case by simp
next
  case (Cons c cs)
  show ?case
  proof (cases c)
    case (JArr ys)
    show ?thesis
    proof (cases "community_loop ys []")
      case None
      with community_loop_returns[of ys "[]"] show ?thesis
        by (simp add: JArr is_number_list_iff)
    next
      case (Some community)
      with community_loop_returns[of ys "[]"] show ?thesis
        by (simp add: JArr is_number_list_iff Cons.IH)
    qed
  qed (simp_all add: is_number_list_iff)
qed

lemma parseBgpCommunities_returns:
  "(parseBgpCommunities v = None) = (\<not> well_shaped_communities v)"
  by (cases v) (simp_all add: parseBgpCommunities_def well_shaped_communities_def
      communities_loop_returns)

lemma assert_string_None: "(assert_string v = None) = (\<not> is_string v)"
  by (cases v) (simp_all add: is_string_def)

lemma assert_float64_None: "(assert_float64 v = None) = (\<not> is_number v)"
  by (cases v) (simp_all add: is_number_def)

lemma parseNeighbour_panics:
  assumes "\<not> mandatory_fields_present proto"
  shows "parseNeighbour lib config now protocolId proto = None"
proof (cases proto)
  case p: (JObj protocol)
  show ?thesis
  proof (cases "index protocol ''routes''")
    case r: (JObj routes)
    from assms p r
    have "assert_string (index protocol ''neighbor_address'') = None \<or>
          assert_float64 (index protocol ''neighbor_as'') = None \<or>
          assert_string (index protocol ''state'') = None \<or>
          assert_float64 (index routes ''imported'') = None \<or>
          assert_float64 (index routes ''exported'') = None \<or>
          assert_float64 (index routes ''filtered'') = None \<or>
          assert_float64 (index routes ''preferred'') = None"
      by (simp add: mandatory_fields_present_def assert_string_None assert_float64_None)
    then show ?thesis
      by (auto simp: parseNeighbour_def p r Let_def split: Option.bind_splits)
  qed (simp_all add: parseNeighbour_def p)
qed (simp_all add: parseNeighbour_def)

lemma parseNeighbours_loop_panics:
  assumes "(protocolId, proto) \<in> set protocols"
    and "parseNeighbour lib config now protocolId proto = None"
  shows "parseNeighbours_loop lib config now protocols neighbours = None"
  using assms
proof (induction protocols arbitrary: neighbours)
  case Nil
  then show ?case by simp
next
  case (Cons entry rest)
  obtain k v where entry: "entry = (k, v)" by (cases entry)
  show ?case
  proof (cases "parseNeighbour lib config now k v")
    case None
    then show ?thesis by (simp add: entry)
  next
    case (Some neighbour)
    with Cons.prems entry have "(protocolId, proto) \<in> set rest" by auto
    from Cons.IH[OF this Cons.prems(2)] show ?thesis by (simp add: entry Some)
  qed
qed

lemma parseNeighbours_error_nil:
  "parseNeighbours sort_Sort lib config now bird \<noteq> Some (neighbours, Some err)"
  by (auto simp: parseNeighbours_def split: Option.bind_splits)

lemma parseNeighbours_loop_Some:
  "(parseNeighbours_loop lib config now protocols acc = Some result) =
     (\<exists>ns. map (\<lambda>(k, v). parseNeighbour lib config now k v) protocols = map Some ns \<and>
           result = acc @ ns)"
proof (induction protocols arbitrary: acc result)
  case Nil
  show ?case by auto
next
  case (Cons entry rest)
  obtain k v where entry: "entry = (k, v)" by (cases entry)
  let ?g = "\<lambda>(k, v). parseNeighbour lib config now k v"
  show ?case
  proof (cases "parseNeighbour lib config now k v")
    case None
    have "None # map ?g rest \<noteq> map Some ns" for ns
      by (cases ns) simp_all
    then show ?thesis by (simp add: entry None)
  next
    case (Some n)
    have "(\<exists>ns. Some n # map ?g rest = map Some ns \<and> result = acc @ ns) =
          (\<exists>ms. map ?g rest = map Some ms \<and> result = (acc @ [n]) @ ms)"
    proof
      assume "\<exists>ns. Some n # map ?g rest = map Some ns \<and> result = acc @ ns"
      then show "\<exists>ms. map ?g rest = map Some ms \<and> result = (acc @ [n]) @ ms"
      proof (elim exE conjE)
        fix ns
        assume a: "Some n # map ?g rest = map Some ns" and b: "result = acc @ ns"
        from a obtain ms where ms: "ns = n # ms" by (cases ns) auto
        from a b ms have "map ?g rest = map Some ms \<and> result = (acc @ [n]) @ ms" by simp
        then show ?thesis by (rule exI)
      qed
    next
      assume "\<exists>ms. map ?g rest = map Some ms \<and> result = (acc @ [n]) @ ms"
      then show "\<exists>ns. Some n # map ?g rest = map Some ns \<and> result = acc @ ns"
      proof (elim exE conjE)
        fix ms
        assume a: "map ?g rest = map Some ms" and b: "result = (acc @ [n]) @ ms"
        then have "Some n # map ?g rest = map Some (n # ms) \<and> result = acc @ (n # ms)" by simp
        then show ?thesis by (rule exI)
      qed
    qed
    then show ?thesis by (simp add: entry Some Cons.IH)
  qed
qed

lemma parseNeighbour_Id:
  "parseNeighbour lib config now k v = Some n \<Longrightarrow> Neighbour_Id n = k"
  by (auto simp: parseNeighbour_def Let_def split: Option.bind_splits)

section \<open>What \<^verbatim>\<open>strconv.Atoi\<close> returns\<close>

lemma digit_val_range: "is_digit c \<Longrightarrow> 0 \<le> digit_val c \<and> digit_val c \<le> 9"
  by (auto simp: is_digit_def digit_val_def)

lemma foldl_digits_mono:
  "0 \<le> n \<Longrightarrow> list_all is_digit ds \<Longrightarrow> n \<le> foldl (\<lambda>n ch. n * 10 + digit_val ch) n ds"
proof (induction ds arbitrary: n)
  case Nil
  show ?case by simp
next
  case (Cons c ds)
  from Cons.prems have d: "0 \<le> digit_val c" and r: "list_all is_digit ds"
    using digit_val_range[of c] by simp_all
  have "0 \<le> n * 10 + digit_val c" using Cons.prems(1) d by simp
  from Cons.IH[OF this r] have "n * 10 + digit_val c \<le> foldl (\<lambda>n ch. n * 10 + digit_val ch) (n * 10 + digit_val c) ds" .
  then show ?case using Cons.prems(1) d by simp
qed

lemma ParseUint_loop_bad_byte:
  assumes "0 \<le> n" and "n \<le> maxUint64" and "\<not> list_all is_digit ds"
  shows "ParseUint_loop ds n =
           (if foldl (\<lambda>n ch. n * 10 + digit_val ch) n (takeWhile is_digit ds) \<le> maxUint64
            then (0, Some ErrSyntax) else (maxUint64, Some ErrRange))"
  using assms
proof (induction ds arbitrary: n)
  case Nil
  then show ?case by simp
next
  case (Cons c ds)
  show ?case
  proof (cases "is_digit c")
    case False
    then show ?thesis using Cons.prems(2) by simp
  next
    case True
    with Cons.prems(3) have bad: "\<not> list_all is_digit ds" by simp
    have d: "0 \<le> digit_val c" "digit_val c \<le> 9" using digit_val_range[OF True] by simp_all
    let ?n1 = "n * 10 + digit_val c"
    have pos: "0 \<le> ?n1" using Cons.prems(1) d by simp
    have mono: "?n1 \<le> foldl (\<lambda>n ch. n * 10 + digit_val ch) ?n1 (takeWhile is_digit ds)"
      by (rule foldl_digits_mono[OF pos]) (simp add: list_all_iff, meson set_takeWhileD)
    show ?thesis
    proof (cases "uint64_cutoff \<le> n")
      case c1: True
      then have "maxUint64 < ?n1" using d by (simp add: uint64_cutoff_def maxUint64_def)
      with mono show ?thesis using True c1 by simp
    next
      case c1: False
      show ?thesis
      proof (cases "maxUint64 < ?n1")
        case c2: True
        with mono show ?thesis using True c1 by (simp add: Let_def)
      next
        case c2: False
        then have le: "?n1 \<le> maxUint64" by simp
        from Cons.IH[OF pos le bad] show ?thesis using True c1 c2 by (simp add: Let_def)
      qed
    qed
  qed
qed

lemma ParseUint_loop_digits:
  assumes "0 \<le> n" and "list_all is_digit ds"
    and "foldl (\<lambda>n ch. n * 10 + digit_val ch) n ds \<le> maxUint64"
  shows "ParseUint_loop ds n = (foldl (\<lambda>n ch. n * 10 + digit_val ch) n ds, None)"
  using assms
proof (induction ds arbitrary: n)
  case Nil
  then show ?case by simp
next
  case (Cons c ds)
  from Cons.prems(2) have dg: "is_digit c" and r: "list_all is_digit ds" by simp_all
  have d: "0 \<le> digit_val c" "digit_val c \<le> 9" using digit_val_range[OF dg] by simp_all
  let ?n1 = "n * 10 + digit_val c"
  have pos: "0 \<le> ?n1" using Cons.prems(1) d by simp
  have mono: "?n1 \<le> foldl (\<lambda>n ch. n * 10 + digit_val ch) ?n1 ds"
    by (rule foldl_digits_mono[OF pos r])
  with Cons.prems(3) have le: "?n1 \<le> maxUint64" by simp
  then have c1: "\<not> uint64_cutoff \<le> n" using d by (simp add: uint64_cutoff_def maxUint64_def)
  from Cons.prems(3) have "foldl (\<lambda>n ch. n * 10 + digit_val ch) ?n1 ds \<le> maxUint64" by simp
  from Cons.IH[OF pos r this] show ?case using dg c1 le by (simp add: Let_def)
qed

lemma Atoi_fast_loop_digits:
  "list_all is_digit ds \<Longrightarrow> Atoi_fast_loop ds n = Some (foldl (\<lambda>n ch. n * 10 + digit_val ch) n ds)"
  by (induction ds arbitrary: n) simp_all

lemma Atoi_fast_loop_bad_byte:
  "\<not> list_all is_digit ds \<Longrightarrow> Atoi_fast_loop ds n = None"
  by (induction ds arbitrary: n) auto

lemma foldl_digits_bound:
  "0 \<le> n \<Longrightarrow> list_all is_digit ds \<Longrightarrow>
     foldl (\<lambda>n ch. n * 10 + digit_val ch) n ds < (n + 1) * 10 ^ length ds"
proof (induction ds arbitrary: n)
  case Nil
  show ?case by simp
next
  case (Cons c ds)
  from Cons.prems have d: "0 \<le> digit_val c" "digit_val c \<le> 9" and r: "list_all is_digit ds"
    using digit_val_range[of c] by simp_all
  have pos: "0 \<le> n * 10 + digit_val c" using Cons.prems(1) d by simp
  have "foldl (\<lambda>n ch. n * 10 + digit_val ch) (n * 10 + digit_val c) ds
          < (n * 10 + digit_val c + 1) * 10 ^ length ds"
    by (rule Cons.IH[OF pos r])
  also have "\<dots> \<le> ((n + 1) * 10) * 10 ^ length ds"
    using d by (intro mult_right_mono) simp_all
  finally show ?case by (simp add: algebra_simps)
qed

lemma leading_digits_short:
  assumes "length s < 20"
  shows "digits_val (leading_digits s) \<le> maxUint64"
proof -
  let ?p = "leading_digits s"
  have dg: "list_all is_digit ?p"
    by (simp add: leading_digits_def list_all_iff) (meson set_takeWhileD)
  have "length (snd (strip_sign s)) \<le> length s"
    by (cases s) (simp_all add: strip_sign_def)
  moreover have "length ?p \<le> length (snd (strip_sign s))"
    by (simp add: leading_digits_def length_takeWhile_le)
  ultimately have len: "length ?p \<le> 19" using assms by simp
  have "digits_val ?p < (0 + 1) * 10 ^ length ?p"
    unfolding digits_val_def by (rule foldl_digits_bound[OF _ dg]) simp
  then have "digits_val ?p < 10 ^ length ?p" by simp
  moreover have "(10::int) ^ length ?p \<le> 10 ^ 19"
    by (rule power_increasing[OF len]) simp
  ultimately show ?thesis by (simp add: maxUint64_def)
qed

lemma Atoi_syntax:
  assumes "\<not> well_formed_int s" and "digits_val (leading_digits s) \<le> maxUint64"
  shows "strconv_Atoi s = (0, Some ErrSyntax)"
proof (cases "0 < length s \<and> length s < 19")
  case True
  obtain neg rest where st: "strip_sign s = (neg, rest)" by (cases "strip_sign s")
  show ?thesis
  proof (cases "rest = []")
    case e: True
    then show ?thesis using True by (simp add: strconv_Atoi_def st)
  next
    case e: False
    with assms(1) have "\<not> list_all is_digit rest" by (simp add: well_formed_int_def st)
    then have "Atoi_fast_loop rest 0 = None" by (rule Atoi_fast_loop_bad_byte)
    then show ?thesis using True e by (simp add: strconv_Atoi_def st)
  qed
next
  case False
  then have slow: "strconv_Atoi s = ParseInt s" by (auto simp: strconv_Atoi_def)
  show ?thesis
  proof (cases "s = []")
    case True
    then show ?thesis using slow by (simp add: ParseInt_def)
  next
    case ne: False
    obtain neg rest where st: "strip_sign s = (neg, rest)" by (cases "strip_sign s")
    show ?thesis
    proof (cases "rest = []")
      case True
      then show ?thesis using ne by (simp add: slow ParseInt_def st ParseUint_def)
    next
      case e: False
      with assms(1) have bad: "\<not> list_all is_digit rest" by (simp add: well_formed_int_def st)
      have "ParseUint_loop rest 0 = (0, Some ErrSyntax)"
        using ParseUint_loop_bad_byte[of 0 rest, OF _ _ bad] assms(2)
        by (simp add: leading_digits_def st digits_val_def maxUint64_def)
      then show ?thesis using ne e by (simp add: slow ParseInt_def st ParseUint_def)
    qed
  qed
qed

lemma Atoi_overflow:
  assumes "\<not> well_formed_int s" and "maxUint64 < digits_val (leading_digits s)"
  shows "strconv_Atoi s = (if fst (strip_sign s) then minInt else maxInt, Some ErrRange)"
proof -
  have long: "\<not> length s < 20"
    using leading_digits_short[of s] assms(2) by auto
  then have slow: "strconv_Atoi s = ParseInt s" and ne: "s \<noteq> []"
    by (auto simp: strconv_Atoi_def)
  obtain neg rest where st: "strip_sign s = (neg, rest)" by (cases "strip_sign s")
  have e: "rest \<noteq> []"
    using assms(2) by (auto simp: leading_digits_def st digits_val_def maxUint64_def)
  with assms(1) have bad: "\<not> list_all is_digit rest" by (simp add: well_formed_int_def st)
  have "ParseUint_loop rest 0 = (maxUint64, Some ErrRange)"
    using ParseUint_loop_bad_byte[of 0 rest, OF _ _ bad] assms(2)
    by (simp add: leading_digits_def st digits_val_def maxUint64_def)
  then show ?thesis using ne e
    by (simp add: slow ParseInt_def st ParseUint_def maxUint64_def maxInt_def)
qed

lemma Atoi_value:
  assumes "well_formed_int s" and "minInt \<le> numeral_val s" and "numeral_val s \<le> maxInt"
  shows "strconv_Atoi s = (numeral_val s, None)"
proof -
  obtain neg rest where st: "strip_sign s = (neg, rest)" by (cases "strip_sign s")
  from assms(1) have e: "rest \<noteq> []" and dg: "list_all is_digit rest"
    by (simp_all add: well_formed_int_def st)
  have ne: "s \<noteq> []" using e st by (auto simp: strip_sign_def)
  have nonneg: "0 \<le> digits_val rest"
    unfolding digits_val_def using foldl_digits_mono[of 0 rest, OF _ dg] by simp
  show ?thesis
  proof (cases "0 < length s \<and> length s < 19")
    case True
    then show ?thesis
      using e by (simp add: strconv_Atoi_def st Atoi_fast_loop_digits[OF dg] numeral_val_def
          digits_val_def)
  next
    case False
    then have slow: "strconv_Atoi s = ParseInt s" by (auto simp: strconv_Atoi_def)
    have le: "digits_val rest \<le> maxInt + 1"
      using assms(2,3) nonneg by (cases neg) (simp_all add: numeral_val_def st minInt_def maxInt_def)
    then have "foldl (\<lambda>n ch. n * 10 + digit_val ch) 0 rest \<le> maxUint64"
      by (simp add: digits_val_def maxInt_def maxUint64_def)
    from ParseUint_loop_digits[of 0 rest, OF _ dg this]
    have pu: "ParseUint rest = (digits_val rest, None)"
      using e by (simp add: ParseUint_def digits_val_def)
    show ?thesis
      using ne assms(2,3) le
      by (cases neg) (simp_all add: slow ParseInt_def st pu numeral_val_def minInt_def maxInt_def)
  qed
qed

section \<open>Sorted results and parses at two instants\<close>

lemma sorted_key_unique:
  fixes key :: "'a \<Rightarrow> 'k::linorder"
  assumes "mset (map f bs) = mset (map f as)"
    and "sorted (map key as)" and "sorted (map key bs)"
    and "distinct (map key as)"
    and "\<And>x. key (f x) = key x"
  shows "map f bs = map f as"
proof -
  let ?a = "map f as" and ?b = "map f bs"
  have k: "map key (map f zs) = map key zs" for zs
    by (simp add: assms(5))
  have da: "distinct (map key ?a)"
    using assms(4) by (simp only: k)
  have "mset (map key ?b) = mset (map key ?a)"
    using assms(1) by (metis mset_map)
  then have db: "distinct (map key ?b)"
    using da by (metis mset_eq_imp_distinct_iff)
  have st: "set ?b = set ?a"
    using assms(1) by (metis set_mset_mset)
  have "inj_on key (set ?a)"
    using da distinct_map[of key ?a] by blast
  then have inj: "inj_on key (set ?b \<union> set ?a)"
    unfolding st by simp
  have sa: "sorted (map key ?a)" and sb: "sorted (map key ?b)"
    using assms(2,3) by (simp_all only: k)
  show ?thesis
    using inj sb db sa da st by (rule map_sorted_distinct_set_unique)
qed

lemma sorted_by_Id:
  "sorted_wrt (\<lambda>a b. \<not> Neighbours_Less b a) zs = sorted (map Neighbour_Id zs)"
  by (simp add: sorted_map Neighbours_Less_def not_less)

lemma sorted_by_Routes_key:
  "sorted_wrt (\<lambda>a b. \<not> Routes_Less b a) zs = sorted (map Routes_key zs)"
  by (simp add: sorted_map Routes_Less_def not_less)

lemma time_Since_elapsed:
  assumes "minDuration \<le> now - t" and "now - t \<le> maxDuration"
    and "minDuration \<le> now' - t" and "now' - t \<le> maxDuration"
  shows "time_Since now' t = time_Since now t + (now' - now)"
  using assms by (simp add: time_Since_def time_Sub_def Let_def)

lemma parseNeighbour_at:
  "parseNeighbour lib config now' k v
     = map_option (neighbour_at lib config now') (parseNeighbour lib config now k v)"
  by (simp add: parseNeighbour_def neighbour_at_def state_changed_def
      parseRelativeServerTime_def Let_def split: Option.bind_split)

lemma parseNeighbour_fixed:
  assumes "parseNeighbour lib config now k v = Some n"
  shows "neighbour_at lib config now n = n"
  using parseNeighbour_at[of lib config now k v now] assms by simp

lemma neighbour_at_Id: "Neighbour_Id (neighbour_at lib config now n) = Neighbour_Id n"
  by (simp add: neighbour_at_def)

lemma neighbour_at_twice:
  "neighbour_at lib config now' (neighbour_at lib config now n) = neighbour_at lib config now' n"
  by (simp add: neighbour_at_def state_changed_def)

lemma parseRoute_at:
  "parseRoute lib config now' data
     = map_option (route_at lib config now') (parseRoute lib config now data)"
  by (simp add: parseRoute_def route_at_def age_changed_def parseRelativeServerTime_def
      Let_def split: Option.bind_split)

lemma parseRoute_fixed:
  assumes "parseRoute lib config now data = Some r"
  shows "route_at lib config now r = r"
  using parseRoute_at[of lib config now data now] assms by simp

lemma route_at_key: "Routes_key (route_at lib config now r) = Routes_key r"
  by (simp add: route_at_def Routes_key_def)

lemma route_at_twice:
  "route_at lib config now' (route_at lib config now r) = route_at lib config now' r"
  by (simp add: route_at_def age_changed_def)

lemma parseRoutes_loop_fixed:
  "parseRoutes_loop lib config now rs acc = Some routes \<Longrightarrow>
     \<forall>r \<in> set acc. route_at lib config now r = r \<Longrightarrow>
     \<forall>r \<in> set routes. route_at lib config now r = r"
proof (induction rs arbitrary: acc)
  case Nil
  then show ?case by simp
next
  case (Cons data rs)
  from Cons.prems(1) obtain r where r: "parseRoute lib config now data = Some r"
    and rest: "parseRoutes_loop lib config now rs (acc @ [r]) = Some routes"
    by (auto split: Option.bind_splits)
  have "\<forall>x \<in> set (acc @ [r]). route_at lib config now x = x"
    using Cons.prems(2) parseRoute_fixed[OF r] by simp
  from Cons.IH[OF rest this] show ?case .
qed

lemma parseRoutes_loop_at:
  "parseRoutes_loop lib config now' rs (map (route_at lib config now') acc)
     = map_option (map (route_at lib config now')) (parseRoutes_loop lib config now rs acc)"
proof (induction rs arbitrary: acc)
  case Nil
  show ?case by simp
next
  case (Cons data rs)
  show ?case
  proof (cases "parseRoute lib config now data")
    case None
    then show ?thesis using parseRoute_at[of lib config now' data now] by simp
  next
    case (Some r)
    then have "parseRoute lib config now' data = Some (route_at lib config now' r)"
      using parseRoute_at[of lib config now' data now] by simp
    then show ?thesis using Cons.IH[of "acc @ [r]"] Some by simp
  qed
qed

lemma parseNeighbours_other_run:
  assumes sorts: "sorts_by Neighbours_Less sort_Sort"
    and d: "distinct (map fst protocols)"
    and m: "mset protocols' = mset protocols"
    and r: "map (\<lambda>(k, v). parseNeighbour lib config now k v) protocols = map Some ns"
  shows "\<exists>ns2. parseNeighbours_loop lib config now2 protocols' [] = Some ns2 \<and>
               sort_Sort ns2 = map (neighbour_at lib config now2) (sort_Sort ns)"
proof -
  let ?g = "\<lambda>(k, v). parseNeighbour lib config now k v"
  let ?g2 = "\<lambda>(k, v). parseNeighbour lib config now2 k v"
  let ?f = "neighbour_at lib config now2"
  define ns2 where "ns2 = map (\<lambda>x. the (?g2 x)) protocols'"
  have ns: "ns = map (\<lambda>x. the (?g x)) protocols"
  proof -
    have "map the (map ?g protocols) = map the (map Some ns)" using r by simp
    then show ?thesis by (simp add: o_def)
  qed
  have some: "\<exists>n. ?g x = Some n" if "x \<in> set protocols" for x
  proof -
    from that have "?g x \<in> set (map ?g protocols)" by simp
    then have "?g x \<in> set (map Some ns)" using r by simp
    then show ?thesis by auto
  qed
  have both: "\<exists>n. ?g x = Some n \<and> ?g2 x = Some (?f n)" if "x \<in> set protocols" for x
  proof -
    obtain k v where x: "x = (k, v)" by (cases x)
    from some[OF that] obtain n where n: "parseNeighbour lib config now k v = Some n"
      by (auto simp: x)
    then have "parseNeighbour lib config now2 k v = Some (?f n)"
      using parseNeighbour_at[of lib config now2 k v now] by simp
    with n show ?thesis by (simp add: x)
  qed
  have sets: "set protocols' = set protocols"
    using m by (metis set_mset_mset)
  have "?g2 x = Some (the (?g2 x))" if "x \<in> set protocols'" for x
    using both[of x] that sets by auto
  then have "map ?g2 protocols' = map Some ns2"
    by (simp add: ns2_def)
  then have loop: "parseNeighbours_loop lib config now2 protocols' [] = Some ns2"
    by (simp add: parseNeighbours_loop_Some)
  have fixed: "?f y = y" if "y \<in> set ns2" for y
  proof -
    from that obtain x where x: "x \<in> set protocols'" and y: "y = the (?g2 x)"
      by (auto simp: ns2_def)
    from both[of x] x sets obtain n where "?g2 x = Some (?f n)" by auto
    then show ?thesis by (simp add: y neighbour_at_twice)
  qed
  have "mset ns2 = image_mset (\<lambda>x. the (?g2 x)) (mset protocols')"
    by (simp add: ns2_def)
  also have "\<dots> = image_mset (\<lambda>x. the (?g2 x)) (mset protocols)"
    by (simp add: m)
  also have "\<dots> = image_mset (\<lambda>x. ?f (the (?g x))) (mset protocols)"
  proof (rule image_mset_cong)
    fix x assume "x \<in># mset protocols"
    then have "x \<in> set protocols" by simp
    from both[OF this] show "the (?g2 x) = ?f (the (?g x))" by auto
  qed
  also have "\<dots> = mset (map ?f ns)"
    by (simp add: ns o_def)
  finally have ms: "mset ns2 = mset (map ?f ns)" .
  have "map Neighbour_Id ns = map fst protocols"
  proof -
    have "Neighbour_Id (the (?g x)) = fst x" if "x \<in> set protocols" for x
    proof -
      obtain k v where x: "x = (k, v)" by (cases x)
      from some[OF that] obtain n where n: "parseNeighbour lib config now k v = Some n"
        by (auto simp: x)
      from parseNeighbour_Id[OF n] show ?thesis by (simp add: x n)
    qed
    then show ?thesis by (simp add: ns)
  qed
  then have dist: "distinct (map Neighbour_Id ns)" using d by simp
  let ?as = "sort_Sort ns" and ?bs = "sort_Sort ns2"
  have pa: "mset ?as = mset ns" and pb: "mset ?bs = mset ns2"
    and sa: "sorted (map Neighbour_Id ?as)" and sb: "sorted (map Neighbour_Id ?bs)"
    using sorts by (simp_all add: sorts_by_def sorted_by_Id)
  have fb: "map ?f ?bs = ?bs"
  proof -
    have "set ?bs = set ns2" using pb by (metis set_mset_mset)
    then have "?f y = y" if "y \<in> set ?bs" for y
      using that fixed by simp
    then show ?thesis by (rule map_idI)
  qed
  have eq: "mset (map ?f ?bs) = mset (map ?f ?as)"
  proof -
    have "mset (map ?f ?bs) = mset ns2" using fb pb by simp
    also have "\<dots> = mset (map ?f ns)" by (rule ms)
    also have "\<dots> = mset (map ?f ?as)" using pa by (metis mset_map)
    finally show ?thesis .
  qed
  have da: "distinct (map Neighbour_Id ?as)"
  proof -
    have "mset (map Neighbour_Id ?as) = mset (map Neighbour_Id ns)" using pa by (metis mset_map)
    then show ?thesis using dist by (metis mset_eq_imp_distinct_iff)
  qed
  have "map ?f ?bs = map ?f ?as"
    by (rule sorted_key_unique[where key = Neighbour_Id, OF eq sa sb da neighbour_at_Id])
  then have "?bs = map ?f ?as" using fb by simp
  with loop show ?thesis by blast
qed

lemma parseNeighbours_loop_fixed:
  assumes "map (\<lambda>(k, v). parseNeighbour lib config now k v) protocols = map Some ns"
    and "n \<in> set ns"
  shows "neighbour_at lib config now n = n"
proof -
  from assms(2) have "Some n \<in> set (map (\<lambda>(k, v). parseNeighbour lib config now k v) protocols)"
    by (simp add: assms(1))
  then obtain k v where "parseNeighbour lib config now k v = Some n" by auto
  then show ?thesis by (rule parseNeighbour_fixed)
qed

lemma parseRoutes_other_instant:
  assumes sorts: "sorts_by Routes_Less sort_Sort"
    and r: "parseRoutes_loop lib config now rs [] = Some routes"
    and d: "distinct (map Routes_key (sort_Sort routes))"
  shows "\<exists>routes2. parseRoutes_loop lib config now2 rs [] = Some routes2 \<and>
               sort_Sort routes2 = map (route_at lib config now2) (sort_Sort routes)"
proof -
  let ?f = "route_at lib config now2"
  have loop: "parseRoutes_loop lib config now2 rs [] = Some (map ?f routes)"
    using parseRoutes_loop_at[of lib config now2 rs "[]" now] r by simp
  let ?as = "sort_Sort routes" and ?bs = "sort_Sort (map ?f routes)"
  have pa: "mset ?as = mset routes" and pb: "mset ?bs = mset (map ?f routes)"
    and sa: "sorted (map Routes_key ?as)" and sb: "sorted (map Routes_key ?bs)"
    using sorts by (simp_all add: sorts_by_def sorted_by_Routes_key)
  have fb: "map ?f ?bs = ?bs"
  proof -
    have "set ?bs = set (map ?f routes)" using pb by (metis set_mset_mset)
    then have "?f y = y" if "y \<in> set ?bs" for y
      using that by (auto simp: route_at_twice)
    then show ?thesis by (rule map_idI)
  qed
  have eq: "mset (map ?f ?bs) = mset (map ?f ?as)"
  proof -
    have "mset (map ?f ?bs) = mset (map ?f routes)" using fb pb by simp
    also have "\<dots> = mset (map ?f ?as)" using pa by (metis mset_map)
    finally show ?thesis .
  qed
  have "map ?f ?bs = map ?f ?as"
    by (rule sorted_key_unique[where key = Routes_key, OF eq sa sb d route_at_key])
  then have "?bs = map ?f ?as" using fb by simp
  with loop show ?thesis by blast
qed

section \<open>Prefix lookup in the store\<close>

text \<open>
  Claim C1, as amended: \<^verbatim>\<open>Lookup\<close> returns the empty list, whatever the store has cached and
  whatever the prefix is.
\<close>

theorem Lookup_returns_nothing: "Lookup self prefix = []"
  by (simp add: Lookup_def)

text \<open>
  Counterexample to C1 as stated: both route servers have completed a successful refresh,
  the snapshot of \<open>rs1\<close> holds a route with network \<open>10.0.0.0/24\<close> and the snapshot of \<open>rs2\<close>
  does not, and the lookup of \<open>10.0.0.0/24\<close> does not return one entry.
\<close>

theorem Lookup_misses_cached_route:
  "State (status_at example_store 0) = STATE_READY \<and>
   State (status_at example_store 1) = STATE_READY \<and>
   map_option (map Network \<circ> Imported) (routesMap example_store 0) = Some [''10.0.0.0/24''] \<and>
   map_option (map Network \<circ> Imported) (routesMap example_store 1) = Some [''192.168.0.0/16''] \<and>
   map_option Filtered (routesMap example_store 0) = Some [] \<and>
   map_option Filtered (routesMap example_store 1) = Some [] \<and>
   length (Lookup example_store ''10.0.0.0/24'') \<noteq> 1"
  by (simp add: example_store_value status_at_def example_route_def Lookup_def)

section \<open>Defective protocol entries\<close>

text \<open>
  Claim C2, as amended: when some protocol entry of the payload is missing or mistypes a
  mandatory field (neighbour address, ASN, state, a route counter), \<^verbatim>\<open>parseNeighbours\<close> does
  not return: the type assertion on the field panics, so there is no partial list of
  neighbours and no error value either. Whenever \<^verbatim>\<open>parseNeighbours\<close> returns, on any payload,
  its error is \<^verbatim>\<open>nil\<close>.
\<close>

theorem parseNeighbours_panics_on_defective_entry:
  assumes "index bird ''protocols'' = JObj protocols"
    and "(protocolId, proto) \<in> set protocols"
    and "\<not> mandatory_fields_present proto"
  shows "parseNeighbours sort_Sort lib config now bird = None \<and>
         (\<forall>other neighbours err.
            parseNeighbours sort_Sort lib config now other \<noteq> Some (neighbours, Some err))"
proof -
  have "parseNeighbours_loop lib config now protocols [] = None"
    using assms(2) parseNeighbour_panics[OF assms(3)] by (rule parseNeighbours_loop_panics)
  then have "parseNeighbours sort_Sort lib config now bird = None"
    by (simp add: parseNeighbours_def assms(1))
  then show ?thesis
    by (simp add: parseNeighbours_error_nil)
qed

text \<open>Witness for C2: the second of two protocol entries has no neighbour address.\<close>

theorem parseNeighbours_panics_on_defective_entry_witness:
  "\<not> mandatory_fields_present example_protocol_without_address \<and>
   parseNeighbours example_sort example_lib example_config_utc example_now
     [(''protocols'', JObj [(''ID1'', example_protocol ''10.0.0.1'' 65001),
                            (''ID2'', example_protocol_without_address)])] = None"
proof -
  have h1: "index [(''protocols'', JObj [(''ID1'', example_protocol ''10.0.0.1'' 65001),
                            (''ID2'', example_protocol_without_address)])] ''protocols''
       = JObj [(''ID1'', example_protocol ''10.0.0.1'' 65001),
               (''ID2'', example_protocol_without_address)]"
    by (simp add: index_def)
  have h2: "(''ID2'', example_protocol_without_address)
       \<in> set [(''ID1'', example_protocol ''10.0.0.1'' 65001),
               (''ID2'', example_protocol_without_address)]"
    by simp
  have h3: "\<not> mandatory_fields_present example_protocol_without_address"
    by (simp add: mandatory_fields_present_def example_protocol_without_address_def index_def
        is_string_def)
  show ?thesis
    using parseNeighbours_panics_on_defective_entry [OF h1 h2 h3] h3 by simp
qed

text \<open>
  Counterexample to C2 as stated: the ASN of the second protocol entry is a string; the
  result of \<^verbatim>\<open>parseNeighbours\<close> is not an error value, it is a panic.
\<close>

theorem parseNeighbours_returns_no_error_value:
  "\<not> mandatory_fields_present example_protocol_string_asn \<and>
   parseNeighbours example_sort example_lib example_config_utc example_now
     [(''protocols'', JObj [(''ID1'', example_protocol ''10.0.0.1'' 65001),
                            (''ID2'', example_protocol_string_asn)])] = None"
  by (simp add: mandatory_fields_present_def example_protocol_string_asn_def index_def
      is_string_def is_number_def parseNeighbours_def parseNeighbour_def example_protocol_def
      example_protocol_fields_def
      Let_def)

section \<open>Stale serve\<close>

text \<open>
  Claim C3. When the call \<^verbatim>\<open>AllRoutes()\<close> of a source fails in a refresh that is attempted (the
  source is not \<^verbatim>\<open>UPDATING\<close>), the body of the loop changes nothing but the status entry of
  that source, which becomes \<^verbatim>\<open>ERROR\<close> with the error and the time of the failure. After the
  whole cycle the cached \<^verbatim>\<open>RoutesResponse\<close> of the source is the one it had before, and
  \<^verbatim>\<open>Stats\<close> reports the counts of that response with the state \<^verbatim>\<open>ERROR\<close>.
\<close>

theorem update_failure_keeps_snapshot:
  assumes "distinct visit" and "source \<in> set visit"
    and "routesMap self source = Some cached"
    and "State (status_at self source) \<noteq> STATE_UPDATING"
    and "fetch source = Inl err"
  shows "fst (update_source fetch now source self) =
           self\<lparr>statusMap := (statusMap self)(source \<mapsto>
                   \<lparr>LastRefresh = now source, LastError = Some err, State = STATE_ERROR\<rparr>)\<rparr> \<and>
         routesMap (fst (update fetch now visit self)) source = Some cached \<and>
         statusMap (fst (update fetch now visit self)) source =
           Some \<lparr>LastRefresh = now source, LastError = Some err, State = STATE_ERROR\<rparr> \<and>
         configMap (fst (update fetch now visit self)) = configMap self \<and>
         (\<forall>visit' i. set visit' \<subseteq> dom (routesMap (fst (update fetch now visit self))) \<and>
             i < length visit' \<and> visit' ! i = source \<longrightarrow>
             RouteServers (Stats visit' (fst (update fetch now visit self))) ! i =
               \<lparr>Stats_Name = Name (config_at self source),
                Routes = \<lparr>Stats_Filtered = int (length (Filtered cached)),
                          Stats_Imported = int (length (Imported cached))\<rparr>,
                Stats_State = ''ERROR'',
                UpdatedAt = now source\<rparr>)"
proof -
  let ?self' = "fst (update fetch now visit self)"
  have step: "fst (update_source fetch now source self) =
           self\<lparr>statusMap := (statusMap self)(source \<mapsto>
                   \<lparr>LastRefresh = now source, LastError = Some err, State = STATE_ERROR\<rparr>)\<rparr>"
    using assms(4,5) by (simp add: update_source_def Let_def)
  have at: "routesMap ?self' source = routesMap (fst (update_source fetch now source self)) source"
    "statusMap ?self' source = statusMap (fst (update_source fetch now source self)) source"
    using update_at[OF assms(1,2), of self fetch now] assms(3) by simp_all
  have r: "routesMap ?self' source = Some cached"
    using at(1) assms(3) by (simp add: step)
  have s: "statusMap ?self' source =
      Some \<lparr>LastRefresh = now source, LastError = Some err, State = STATE_ERROR\<rparr>"
    using at(2) by (simp add: step)
  have c: "configMap ?self' = configMap self"
    by (rule update_configMap)
  have st: "status_at ?self' source = \<lparr>LastRefresh = now source, LastError = Some err, State = STATE_ERROR\<rparr>"
    by (simp add: status_at_def s)
  have cf: "config_at ?self' source = config_at self source"
    by (simp add: config_at_def c)
  have "RouteServers (Stats visit' ?self') ! i =
               \<lparr>Stats_Name = Name (config_at self source),
                Routes = \<lparr>Stats_Filtered = int (length (Filtered cached)),
                          Stats_Imported = int (length (Imported cached))\<rparr>,
                Stats_State = ''ERROR'',
                UpdatedAt = now source\<rparr>"
    if "set visit' \<subseteq> dom (routesMap ?self')" "i < length visit'" "visit' ! i = source"
    for visit' i
  proof -
    have "routesMap ?self' (visit' ! i) = Some cached" using r that(3) by simp
    from Stats_servers_nth[OF that(1,2) this] show ?thesis
      using that(3) by (simp add: st cf stateToString_def STATE_ERROR_def STATE_INIT_def
          STATE_READY_def STATE_UPDATING_def)
  qed
  then show ?thesis using step r s c by blast
qed

text \<open>
  Witness for C3: route server \<open>rs1\<close> has cached one imported route in a successful refresh;
  in the next cycle both fetches fail.
\<close>

theorem update_failure_keeps_snapshot_witness:
  "distinct [0, 1 :: nat] \<and> (0 :: nat) \<in> set [0, 1] \<and>
   routesMap example_store 0 = Some \<lparr>Imported = [example_route ''10.0.0.0/24''], Filtered = []\<rparr> \<and>
   State (status_at example_store 0) \<noteq> STATE_UPDATING \<and>
   example_failing_fetch 0 = Inl ''connection refused'' \<and>
   routesMap (fst (update example_failing_fetch (\<lambda>source. 2000) [0, 1] example_store)) 0 =
     Some \<lparr>Imported = [example_route ''10.0.0.0/24''], Filtered = []\<rparr> \<and>
   statusMap (fst (update example_failing_fetch (\<lambda>source. 2000) [0, 1] example_store)) 0 =
     Some \<lparr>LastRefresh = 2000, LastError = Some ''connection refused'', State = STATE_ERROR\<rparr> \<and>
   RouteServers (Stats [0, 1] (fst (update example_failing_fetch (\<lambda>source. 2000) [0, 1] example_store))) ! 0 =
     \<lparr>Stats_Name = ''rs1'', Routes = \<lparr>Stats_Filtered = 0, Stats_Imported = 1\<rparr>,
      Stats_State = ''ERROR'', UpdatedAt = 2000\<rparr>"
proof -
  let ?cached = "\<lparr>Imported = [example_route ''10.0.0.0/24''], Filtered = []\<rparr>"
  let ?after = "fst (update example_failing_fetch (\<lambda>source. 2000) [0, 1] example_store)"
  have h1: "distinct [0, 1 :: nat]" and h2: "(0 :: nat) \<in> set [0, 1]" by simp_all
  have h3: "routesMap example_store 0 = Some ?cached"
    by (simp add: example_store_value)
  have h4: "State (status_at example_store 0) \<noteq> STATE_UPDATING"
    by (simp add: example_store_value status_at_def STATE_READY_def STATE_UPDATING_def)
  have h5: "example_failing_fetch 0 = Inl ''connection refused''"
    by (simp add: example_failing_fetch_def)
  note main = update_failure_keeps_snapshot [where fetch = example_failing_fetch
      and now = "\<lambda>source. 2000" and source = 0 and err = "''connection refused''",
      OF h1 h2 h3 h4 h5]
  have r1: "routesMap ?after 1 \<noteq> None"
    using update_at [of "[0, 1]" 1 example_store example_failing_fetch "\<lambda>source. 2000"]
    by (simp add: example_store_value update_source_routes_at example_failing_fetch_def)
  have d: "set [0, 1] \<subseteq> dom (routesMap ?after)"
    using main r1 by auto
  have n: "Name (config_at example_store 0) = ''rs1''"
    by (simp add: example_store_value config_at_def)
  have s: "RouteServers (Stats [0, 1] ?after) ! 0 =
     \<lparr>Stats_Name = ''rs1'', Routes = \<lparr>Stats_Filtered = 0, Stats_Imported = 1\<rparr>,
      Stats_State = ''ERROR'', UpdatedAt = 2000\<rparr>"
    using main d n by simp
  show ?thesis using h1 h2 h3 h4 h5 main s by simp
qed

section \<open>The refresh state machine\<close>



section \<open>BGP attribute blocks\<close>

text \<open>
  Claim C5, as amended: on an attribute block whose \<open>as_path\<close> is a list, whose \<open>local_pref\<close> is
  a string and whose two communities values are absent or well shaped, \<^verbatim>\<open>parseRouteBgpInfo\<close>
  returns, with origin \<open>unknown\<close> when \<open>origin\<close> is absent or not a string, MED 0 when \<open>med\<close> is
  absent or not a string, and local preference 0 when \<open>local_pref\<close> is a malformed numeral
  in which the digits before the first bad byte do not exceed the range of \<^verbatim>\<open>uint64\<close>, as in
  every malformed string of fewer than 20 bytes.
\<close>

theorem parseRouteBgpInfo_defaults:
  assumes "index bgpData ''as_path'' = JArr path"
    and "index bgpData ''local_pref'' = JStr lp"
    and "well_shaped_communities (index bgpData ''communities'')"
    and "well_shaped_communities (index bgpData ''large_communities'')"
  shows "parseRouteBgpInfo (JObj bgpData) \<noteq> None \<and>
         ((\<forall>s. index bgpData ''origin'' \<noteq> JStr s) \<longrightarrow>
            map_option Origin (parseRouteBgpInfo (JObj bgpData)) = Some ''unknown'') \<and>
         ((\<forall>s. index bgpData ''med'' \<noteq> JStr s) \<longrightarrow>
            map_option Med (parseRouteBgpInfo (JObj bgpData)) = Some 0) \<and>
         (\<not> well_formed_int lp \<and> digits_val (leading_digits lp) \<le> maxUint64 \<longrightarrow>
            map_option LocalPref (parseRouteBgpInfo (JObj bgpData)) = Some 0) \<and>
         (\<not> well_formed_int lp \<and> length lp < 20 \<longrightarrow>
            map_option LocalPref (parseRouteBgpInfo (JObj bgpData)) = Some 0)"
proof -
  obtain cs where cs: "parseBgpCommunities (index bgpData ''communities'') = Some cs"
    using assms(3) parseBgpCommunities_returns[of "index bgpData ''communities''"] by auto
  obtain lcs where lcs: "parseBgpCommunities (index bgpData ''large_communities'') = Some lcs"
    using assms(4) parseBgpCommunities_returns[of "index bgpData ''large_communities''"] by auto
  have ap: "parseIntList (JArr path) \<noteq> None"
    by (simp add: parseIntList_def mustStringList_def)
  then obtain asPath where asPath: "parseIntList (JArr path) = Some asPath" by blast
  have o: "mustString v ''unknown'' = ''unknown''" if "\<forall>s. v \<noteq> JStr s" for v
    using that by (cases v) (simp_all add: mustString_def)
  have m: "string_ok v = ([], False)" if "\<forall>s. v \<noteq> JStr s" for v
    using that by (cases v) simp_all
  have l1: "fst (strconv_Atoi lp) = 0"
    if "\<not> well_formed_int lp \<and> digits_val (leading_digits lp) \<le> maxUint64"
    using that by (simp add: Atoi_syntax)
  have l2: "fst (strconv_Atoi lp) = 0" if "\<not> well_formed_int lp \<and> length lp < 20"
    using that by (simp add: Atoi_syntax leading_digits_short)
  show ?thesis
    using o[of "index bgpData ''origin''"] m[of "index bgpData ''med''"] l1 l2
    by (auto simp add: parseRouteBgpInfo_def assms(1,2) cs lcs asPath Let_def
        split: prod.splits)
qed

text \<open>Witness for C5: a block without \<open>origin\<close> and \<open>med\<close>, with an unparsable \<open>local_pref\<close>.\<close>

theorem parseRouteBgpInfo_defaults_witness:
  "map_option Origin (parseRouteBgpInfo (JObj example_bgp)) = Some ''unknown'' \<and>
   map_option Med (parseRouteBgpInfo (JObj example_bgp)) = Some 0 \<and>
   map_option LocalPref (parseRouteBgpInfo (JObj example_bgp)) = Some 0"
proof -
  have h1: "index example_bgp ''as_path'' = JArr [JStr ''65001'']"
    and h2: "index example_bgp ''local_pref'' = JStr ''high''"
    and h3: "well_shaped_communities (index example_bgp ''communities'')"
    and h4: "well_shaped_communities (index example_bgp ''large_communities'')"
    and h5: "\<forall>s. index example_bgp ''origin'' \<noteq> JStr s"
    and h6: "\<forall>s. index example_bgp ''med'' \<noteq> JStr s"
    by (simp_all add: example_bgp_def index_def well_shaped_communities_def)
  have h7: "\<not> well_formed_int ''high''"
    by (simp add: well_formed_int_def strip_sign_def is_digit_def)
  show ?thesis
    using parseRouteBgpInfo_defaults [OF h1 h2 h3 h4] h5 h6 h7 by simp
qed

text \<open>
  Counterexample to C5 as stated: in the first attribute block \<open>origin\<close> and \<open>med\<close> are absent,
  and so is \<open>local_pref\<close>; \<^verbatim>\<open>parseRouteBgpInfo\<close> does not succeed, the type assertion on
  \<open>local_pref\<close> panics. In the second block \<open>local_pref\<close> does not parse as an integer, and the
  local preference is not 0: \<^verbatim>\<open>Atoi\<close> reports the overflow of the twenty digits before it
  reads the \<open>x\<close>, and returns the largest \<^verbatim>\<open>int\<close>.
\<close>

theorem parseRouteBgpInfo_panics_without_local_pref:
  "parseRouteBgpInfo (JObj [(''as_path'', JArr [JStr ''65001'']), (''next_hop'', JStr ''10.0.0.1'')])
     = None \<and>
   map_option LocalPref
     (parseRouteBgpInfo (JObj [(''as_path'', JArr [JStr ''65001'']),
                               (''local_pref'', JStr ''99999999999999999999x'')]))
     = Some 9223372036854775807"
  by (simp add: parseRouteBgpInfo_def index_def parseIntList_def mustStringList_def
      parseBgpCommunities_def strconv_Atoi_def ParseInt_def ParseUint_def uint64_cutoff_def
      maxUint64_def maxInt_def minInt_def digit_val_def is_digit_def strip_sign_def Let_def
      mustString_def)

section \<open>Deterministic order of the neighbours and of the routes\<close>

lemma example_sort_sorts: "sorts_by Neighbours_Less example_sort"
  by (simp add: sorts_by_def example_sort_def sorted_by_Id)

lemma example_sort_routes_sorts: "sorts_by Routes_Less example_sort_routes"
  by (simp add: sorts_by_def example_sort_routes_def sorted_by_Routes_key)

lemma example_parse:
  "parseNeighbours example_sort example_lib example_config_utc example_now example_bird
     = Some ([example_neighbour ''ID1'' ''10.0.0.1'' 65001 3600000000000,
              example_neighbour ''ID2'' ''10.0.0.2'' 65002 3600000000000], None)"
  by (simp add: parseNeighbours_def example_bird_def index_def parseNeighbour_def
      example_protocol_def example_protocol_fields_def example_neighbour_def Let_def
      example_sort_def float64_to_int_def trunc_toward_zero_def minInt_def maxInt_def
      parseRelativeServerTime_def parseServerTime_def example_lib_def time_Since_def
      time_Sub_def maxDuration_def minDuration_def mustString_def example_now_def
      example_config_utc_def)

lemma example_parse_routes:
  "parseRoutes example_sort_routes example_lib example_config_utc example_now example_routes_bird
     = Some ([example_parsed_route ''10.0.0.0/24'' 3600000000000,
              example_parsed_route ''192.168.0.0/16'' 3600000000000], None)"
  by (simp add: parseRoutes_def example_routes_bird_def index_def parseRoute_def
      example_route_fields_def example_parsed_route_def Let_def example_sort_routes_def
      Routes_key_def float64_to_int_def trunc_toward_zero_def minInt_def maxInt_def
      parseRelativeServerTime_def parseServerTime_def example_lib_def time_Since_def
      time_Sub_def maxDuration_def minDuration_def mustString_def example_now_def
      example_config_utc_def mustStringList_def parseRouteBgpInfo_def parseIntList_def
      parseBgpCommunities_def strconv_Atoi_def strip_sign_def is_digit_def digit_val_def)

text \<open>
  Claim C6. Let \<^verbatim>\<open>sort.Sort\<close> order the neighbours by identifier and the routes by network and
  next hop. The list that \<^verbatim>\<open>parseNeighbours\<close> returns is in ascending order; a second parse of
  the same payload, which may visit the protocols map in another order, returns the same
  list when it reads the same instant, and when it reads another instant it returns the same
  neighbours in the same order, each with the uptime of that instant and no other change:
  where no duration saturates, each uptime has grown by the time elapsed between the two
  parses. The same holds of \<^verbatim>\<open>parseRoutes\<close> and the age of the routes; for two instants the
  routes of the result are taken to differ in network or next hop, so that their order is
  total.
\<close>

theorem parses_repeatable:
  assumes "sorts_by Neighbours_Less sort_Neighbours"
    and "sorts_by Routes_Less sort_Routes"
  shows "(index bird ''protocols'' = JObj protocols \<and>
          index bird' ''protocols'' = JObj protocols' \<and>
          distinct (map fst protocols) \<and> mset protocols' = mset protocols \<and>
          parseNeighbours sort_Neighbours lib config now bird = Some result \<longrightarrow>
            snd result = None \<and>
            sorted_wrt (\<lambda>a b. \<not> Neighbours_Less b a) (fst result) \<and>
            parseNeighbours sort_Neighbours lib config now bird' = Some result \<and>
            parseNeighbours sort_Neighbours lib config now' bird'
              = Some (map (neighbour_at lib config now') (fst result), None) \<and>
            (\<forall>n \<in> set (fst result).
               Uptime n = time_Since now (state_changed lib config n) \<and>
               (minDuration \<le> now - state_changed lib config n \<and>
                now - state_changed lib config n \<le> maxDuration \<and>
                minDuration \<le> now' - state_changed lib config n \<and>
                now' - state_changed lib config n \<le> maxDuration \<longrightarrow>
                  Uptime (neighbour_at lib config now' n) = Uptime n + (now' - now)))) \<and>
         (index rbird' ''routes'' = index rbird ''routes'' \<and>
          parseRoutes sort_Routes lib config now rbird = Some rresult \<longrightarrow>
            snd rresult = None \<and>
            sorted_wrt (\<lambda>a b. \<not> Routes_Less b a) (fst rresult) \<and>
            parseRoutes sort_Routes lib config now rbird' = Some rresult \<and>
            (distinct (map Routes_key (fst rresult)) \<longrightarrow>
               parseRoutes sort_Routes lib config now' rbird'
                 = Some (map (route_at lib config now') (fst rresult), None)) \<and>
            (\<forall>r \<in> set (fst rresult).
               Age r = time_Since now (age_changed lib config r) \<and>
               (minDuration \<le> now - age_changed lib config r \<and>
                now - age_changed lib config r \<le> maxDuration \<and>
                minDuration \<le> now' - age_changed lib config r \<and>
                now' - age_changed lib config r \<le> maxDuration \<longrightarrow>
                  Age (route_at lib config now' r) = Age r + (now' - now))))"
proof -
  have neighbours:
    "snd result = None \<and>
     sorted_wrt (\<lambda>a b. \<not> Neighbours_Less b a) (fst result) \<and>
     parseNeighbours sort_Neighbours lib config now bird' = Some result \<and>
     parseNeighbours sort_Neighbours lib config now' bird'
       = Some (map (neighbour_at lib config now') (fst result), None) \<and>
     (\<forall>n \<in> set (fst result).
        Uptime n = time_Since now (state_changed lib config n) \<and>
        (minDuration \<le> now - state_changed lib config n \<and>
         now - state_changed lib config n \<le> maxDuration \<and>
         minDuration \<le> now' - state_changed lib config n \<and>
         now' - state_changed lib config n \<le> maxDuration \<longrightarrow>
           Uptime (neighbour_at lib config now' n) = Uptime n + (now' - now)))"
    if p: "index bird ''protocols'' = JObj protocols"
      and p': "index bird' ''protocols'' = JObj protocols'"
      and d: "distinct (map fst protocols)" and m: "mset protocols' = mset protocols"
      and res: "parseNeighbours sort_Neighbours lib config now bird = Some result"
  proof -
    from res obtain ns where loop: "parseNeighbours_loop lib config now protocols [] = Some ns"
      and result: "result = (sort_Neighbours ns, None)"
      by (auto simp: parseNeighbours_def p split: Option.bind_splits)
    from loop have r: "map (\<lambda>(k, v). parseNeighbour lib config now k v) protocols = map Some ns"
      by (simp add: parseNeighbours_loop_Some)
    have perm: "mset (sort_Neighbours ns) = mset ns"
      and srt: "sorted_wrt (\<lambda>a b. \<not> Neighbours_Less b a) (sort_Neighbours ns)"
      using assms(1) by (simp_all add: sorts_by_def)
    have fixed: "neighbour_at lib config now n = n" if "n \<in> set (sort_Neighbours ns)" for n
    proof -
      from that have "n \<in> set ns" using perm by (metis set_mset_mset)
      with r show ?thesis by (rule parseNeighbours_loop_fixed)
    qed
    then have idm: "map (neighbour_at lib config now) (sort_Neighbours ns) = sort_Neighbours ns"
      by (rule map_idI)
    from parseNeighbours_other_run[OF assms(1) d m r, of now]
    have same: "parseNeighbours sort_Neighbours lib config now bird' = Some result"
      by (auto simp: parseNeighbours_def p' result idm)
    from parseNeighbours_other_run[OF assms(1) d m r, of now']
    have other: "parseNeighbours sort_Neighbours lib config now' bird'
       = Some (map (neighbour_at lib config now') (fst result), None)"
      by (auto simp: parseNeighbours_def p' result)
    have up: "Uptime n = time_Since now (state_changed lib config n)"
      if "n \<in> set (fst result)" for n
    proof -
      from that have "neighbour_at lib config now n = n" using fixed by (simp add: result)
      then have "Uptime n = Uptime (neighbour_at lib config now n)" by simp
      then show ?thesis by (simp add: neighbour_at_def)
    qed
    have el: "Uptime (neighbour_at lib config now' n) = Uptime n + (now' - now)"
      if "n \<in> set (fst result)"
        and "minDuration \<le> now - state_changed lib config n \<and>
             now - state_changed lib config n \<le> maxDuration \<and>
             minDuration \<le> now' - state_changed lib config n \<and>
             now' - state_changed lib config n \<le> maxDuration" for n
      using up[OF that(1)] that(2)
      by (simp add: neighbour_at_def time_Since_elapsed[of now "state_changed lib config n" now'])
    show ?thesis
      using same other srt up el by (simp add: result)
  qed
  have routes:
    "snd rresult = None \<and>
     sorted_wrt (\<lambda>a b. \<not> Routes_Less b a) (fst rresult) \<and>
     parseRoutes sort_Routes lib config now rbird' = Some rresult \<and>
     (distinct (map Routes_key (fst rresult)) \<longrightarrow>
        parseRoutes sort_Routes lib config now' rbird'
          = Some (map (route_at lib config now') (fst rresult), None)) \<and>
     (\<forall>r \<in> set (fst rresult).
        Age r = time_Since now (age_changed lib config r) \<and>
        (minDuration \<le> now - age_changed lib config r \<and>
         now - age_changed lib config r \<le> maxDuration \<and>
         minDuration \<le> now' - age_changed lib config r \<and>
         now' - age_changed lib config r \<le> maxDuration \<longrightarrow>
           Age (route_at lib config now' r) = Age r + (now' - now)))"
    if same_routes: "index rbird' ''routes'' = index rbird ''routes''"
      and res: "parseRoutes sort_Routes lib config now rbird = Some rresult"
  proof -
    from res obtain rs routes where rs: "index rbird ''routes'' = JArr rs"
      and loop: "parseRoutes_loop lib config now rs [] = Some routes"
      and result: "rresult = (sort_Routes routes, None)"
      by (cases "index rbird ''routes''") (auto simp: parseRoutes_def split: Option.bind_splits)
    have perm: "mset (sort_Routes routes) = mset routes"
      and srt: "sorted_wrt (\<lambda>a b. \<not> Routes_Less b a) (sort_Routes routes)"
      using assms(2) by (simp_all add: sorts_by_def)
    have same: "parseRoutes sort_Routes lib config now rbird' = Some rresult"
      using res by (simp add: parseRoutes_def same_routes)
    have other: "parseRoutes sort_Routes lib config now' rbird'
          = Some (map (route_at lib config now') (fst rresult), None)"
      if "distinct (map Routes_key (fst rresult))"
    proof -
      from that have "distinct (map Routes_key (sort_Routes routes))" by (simp add: result)
      from parseRoutes_other_instant[OF assms(2) loop this, of now'] show ?thesis
        by (auto simp: parseRoutes_def same_routes rs result)
    qed
    have fixed: "route_at lib config now r = r" if "r \<in> set (fst rresult)" for r
    proof -
      from that have "r \<in> set routes" using perm by (metis fst_conv result set_mset_mset)
      with parseRoutes_loop_fixed[OF loop] show ?thesis by simp
    qed
    have age: "Age r = time_Since now (age_changed lib config r)"
      if "r \<in> set (fst rresult)" for r
    proof -
      from fixed[OF that] have "Age r = Age (route_at lib config now r)" by simp
      then show ?thesis by (simp add: route_at_def)
    qed
    have el: "Age (route_at lib config now' r) = Age r + (now' - now)"
      if "r \<in> set (fst rresult)"
        and "minDuration \<le> now - age_changed lib config r \<and>
             now - age_changed lib config r \<le> maxDuration \<and>
             minDuration \<le> now' - age_changed lib config r \<and>
             now' - age_changed lib config r \<le> maxDuration" for r
      using age[OF that(1)] that(2)
      by (simp add: route_at_def time_Since_elapsed[of now "age_changed lib config r" now'])
    show ?thesis
      using same other srt age el by (simp add: result)
  qed
  from neighbours routes show ?thesis by blast
qed

text \<open>
  Witness for C6: the two protocols of the example response, visited in the one order and
  in the other, and its two routes, parsed at 01:00:00 and again one minute later.
\<close>

theorem parses_repeatable_witness:
  "parseNeighbours example_sort example_lib example_config_utc example_now example_bird_revisited
     = Some ([example_neighbour ''ID1'' ''10.0.0.1'' 65001 3600000000000,
              example_neighbour ''ID2'' ''10.0.0.2'' 65002 3600000000000], None) \<and>
   parseNeighbours example_sort example_lib example_config_utc example_later example_bird_revisited
     = Some ([example_neighbour ''ID1'' ''10.0.0.1'' 65001 3660000000000,
              example_neighbour ''ID2'' ''10.0.0.2'' 65002 3660000000000], None) \<and>
   parseRoutes example_sort_routes example_lib example_config_utc example_now
       ((''ttl'', JNull) # example_routes_bird)
     = Some ([example_parsed_route ''10.0.0.0/24'' 3600000000000,
              example_parsed_route ''192.168.0.0/16'' 3600000000000], None) \<and>
   parseRoutes example_sort_routes example_lib example_config_utc example_later
       ((''ttl'', JNull) # example_routes_bird)
     = Some ([example_parsed_route ''10.0.0.0/24'' 3660000000000,
              example_parsed_route ''192.168.0.0/16'' 3660000000000], None)"
proof -
  let ?p = "[(''ID2'', example_protocol ''10.0.0.2'' 65002),
             (''ID1'', example_protocol ''10.0.0.1'' 65001)]"
  let ?p' = "[(''ID1'', example_protocol ''10.0.0.1'' 65001),
              (''ID2'', example_protocol ''10.0.0.2'' 65002)]"
  let ?ns = "[example_neighbour ''ID1'' ''10.0.0.1'' 65001 3600000000000,
              example_neighbour ''ID2'' ''10.0.0.2'' 65002 3600000000000]"
  let ?rs = "[example_parsed_route ''10.0.0.0/24'' 3600000000000,
              example_parsed_route ''192.168.0.0/16'' 3600000000000]"
  have h1: "index example_bird ''protocols'' = JObj ?p"
    and h2: "index example_bird_revisited ''protocols'' = JObj ?p'"
    by (simp_all add: example_bird_def example_bird_revisited_def index_def)
  have h3: "distinct (map fst ?p)" and h4: "mset ?p' = mset ?p" by simp_all
  have h5: "index ((''ttl'', JNull) # example_routes_bird) ''routes''
              = index example_routes_bird ''routes''"
    by (simp add: index_def)
  have h6: "distinct (map Routes_key ?rs)"
    by (simp add: Routes_key_def example_parsed_route_def)
  have n: "map (neighbour_at example_lib example_config_utc example_later) ?ns
             = [example_neighbour ''ID1'' ''10.0.0.1'' 65001 3660000000000,
                example_neighbour ''ID2'' ''10.0.0.2'' 65002 3660000000000]"
    by (simp add: neighbour_at_def state_changed_def example_neighbour_def
        example_protocol_fields_def index_def parseServerTime_def example_lib_def
        time_Since_def time_Sub_def maxDuration_def minDuration_def example_later_def Let_def)
  have r: "map (route_at example_lib example_config_utc example_later) ?rs
             = [example_parsed_route ''10.0.0.0/24'' 3660000000000,
                example_parsed_route ''192.168.0.0/16'' 3660000000000]"
    by (simp add: route_at_def age_changed_def example_parsed_route_def
        example_route_fields_def index_def parseServerTime_def example_lib_def
        time_Since_def time_Sub_def maxDuration_def minDuration_def example_later_def Let_def)
  note main = parses_repeatable [OF example_sort_sorts example_sort_routes_sorts,
      where bird = example_bird and bird' = example_bird_revisited
        and protocols = ?p and protocols' = ?p' and result = "(?ns, None)"
        and lib = example_lib and config = example_config_utc
        and now = example_now and now' = example_later
        and rbird = example_routes_bird and rbird' = "(''ttl'', JNull) # example_routes_bird"
        and rresult = "(?rs, None)"]
  show ?thesis
    using main h1 h2 h3 h4 h5 h6 example_parse example_parse_routes n r by simp
qed

section \<open>AS paths\<close>

text \<open>
  Claim C7, as amended: on a list \<^verbatim>\<open>parseIntList\<close> returns the values of \<^verbatim>\<open>strconv.Atoi\<close> of the
  elements that are strings, in order, so that a list of strings is converted element by
  element; no element makes it panic, only a value that is not a list does. A malformed
  string becomes 0 when the digits before its first bad byte do not exceed the range of
  \<^verbatim>\<open>uint64\<close>, as in every malformed string of fewer than 20 bytes; when they do exceed it the
  string becomes the largest \<^verbatim>\<open>int\<close>, or the smallest after a minus sign. A well-formed
  numeral in the range of \<^verbatim>\<open>int\<close> becomes the integer it denotes.
\<close>

theorem parseIntList_elementwise:
  "parseIntList (JArr (map JStr ss)) = Some (map (\<lambda>s. fst (strconv_Atoi s)) ss) \<and>
   (\<forall>s \<in> set ss. \<not> well_formed_int s \<and> digits_val (leading_digits s) \<le> maxUint64 \<longrightarrow>
      fst (strconv_Atoi s) = 0) \<and>
   (\<forall>s \<in> set ss. \<not> well_formed_int s \<and> length s < 20 \<longrightarrow> fst (strconv_Atoi s) = 0) \<and>
   (\<forall>s \<in> set ss. \<not> well_formed_int s \<and> maxUint64 < digits_val (leading_digits s) \<longrightarrow>
      fst (strconv_Atoi s) = (if fst (strip_sign s) then minInt else maxInt)) \<and>
   (\<forall>s \<in> set ss. well_formed_int s \<and> minInt \<le> numeral_val s \<and> numeral_val s \<le> maxInt \<longrightarrow>
      fst (strconv_Atoi s) = numeral_val s) \<and>
   parseIntList (JArr xs)
     = Some (map (\<lambda>s. fst (strconv_Atoi s))
               (concat (map (\<lambda>e. case e of JStr s \<Rightarrow> [s] | _ \<Rightarrow> []) xs))) \<and>
   ((\<forall>ys. v \<noteq> JArr ys) \<longrightarrow> parseIntList v = None)"
proof -
  have "parseIntList (JArr (map JStr ss)) = Some (map (\<lambda>s. fst (strconv_Atoi s)) ss)"
    by (simp add: parseIntList_def mustStringList_def mustStringList_loop_strings
        parseIntList_loop_map)
  moreover have "fst (strconv_Atoi s) = 0"
    if "\<not> well_formed_int s \<and> digits_val (leading_digits s) \<le> maxUint64" for s
    using that by (simp add: Atoi_syntax)
  moreover have "fst (strconv_Atoi s) = 0" if "\<not> well_formed_int s \<and> length s < 20" for s
    using that by (simp add: Atoi_syntax leading_digits_short)
  moreover have "fst (strconv_Atoi s) = (if fst (strip_sign s) then minInt else maxInt)"
    if "\<not> well_formed_int s \<and> maxUint64 < digits_val (leading_digits s)" for s
    using that by (simp add: Atoi_overflow)
  moreover have "fst (strconv_Atoi s) = numeral_val s"
    if "well_formed_int s \<and> minInt \<le> numeral_val s \<and> numeral_val s \<le> maxInt" for s
    using that by (simp add: Atoi_value)
  moreover have "parseIntList (JArr xs)
     = Some (map (\<lambda>s. fst (strconv_Atoi s))
               (concat (map (\<lambda>e. case e of JStr s \<Rightarrow> [s] | _ \<Rightarrow> []) xs)))"
    by (simp add: parseIntList_def mustStringList_def mustStringList_loop_any
        parseIntList_loop_map)
  moreover have "parseIntList v = None" if "\<forall>ys. v \<noteq> JArr ys"
    using that by (cases v) (simp_all add: parseIntList_def mustStringList_def)
  ultimately show ?thesis by blast
qed

text \<open>
  Witness for C7: an AS path with a malformed element and a negative one, a list with a
  number among its elements, and an absent AS path.
\<close>

theorem parseIntList_elementwise_witness:
  "parseIntList (JArr [JStr ''65001'', JStr ''x'', JStr ''-7'']) = Some [65001, 0, - 7] \<and>
   parseIntList (JArr [JStr ''65001'', JNum 65002]) = Some [65001] \<and>
   parseIntList JNull = None"
proof -
  have wf: "well_formed_int ''65001''" "\<not> well_formed_int ''x''" "well_formed_int ''-7''"
    by (simp_all add: well_formed_int_def strip_sign_def is_digit_def)
  have v: "numeral_val ''65001'' = 65001" "numeral_val ''-7'' = - 7"
    by (simp_all add: numeral_val_def strip_sign_def digits_val_def digit_val_def)
  have n: "\<forall>ys. JNull \<noteq> JArr ys" by simp
  show ?thesis
    using parseIntList_elementwise [of "[''65001'', ''x'', ''-7'']" "[JStr ''65001'', JNum 65002]" JNull]
      wf v n
    by (simp add: minInt_def maxInt_def)
qed

text \<open>
  Counterexample to C7 as stated: this element of an AS path is not a number, and it does
  not become 0. \<^verbatim>\<open>Atoi\<close> reports the overflow of its twenty digits before it reads the \<open>x\<close>,
  and returns the largest \<^verbatim>\<open>int\<close>.
\<close>

theorem parseIntList_overflow_before_bad_byte:
  "\<not> well_formed_int ''99999999999999999999x'' \<and>
   parseIntList (JArr [JStr ''65001'', JStr ''99999999999999999999x''])
     = Some [65001, 9223372036854775807]"
  by (simp add: well_formed_int_def strip_sign_def is_digit_def parseIntList_def
      mustStringList_def strconv_Atoi_def ParseInt_def ParseUint_def uint64_cutoff_def
      maxUint64_def maxInt_def minInt_def digit_val_def Let_def)

section \<open>Communities\<close>

text \<open>
  Claim C8, as amended: \<^verbatim>\<open>parseBgpCommunities\<close> returns the empty sequence when the value is
  absent or is not a list, and for a list of lists of numbers, each of which truncates to a
  value in the range of \<^verbatim>\<open>int\<close>, it returns the sequences of the truncated numbers, in the
  order of the input.
\<close>

theorem parseBgpCommunities_shapes:
  "((\<forall>cs. v \<noteq> JArr cs) \<longrightarrow> parseBgpCommunities v = Some []) \<and>
   ((\<forall>c \<in> set css. \<forall>x \<in> set c. minInt \<le> trunc_toward_zero x \<and> trunc_toward_zero x \<le> maxInt) \<longrightarrow>
      parseBgpCommunities (JArr (map (\<lambda>c. JArr (map JNum c)) css))
        = Some (map (map trunc_toward_zero) css))"
proof -
  have "parseBgpCommunities v = Some []" if "\<forall>cs. v \<noteq> JArr cs"
    using that by (cases v) (simp_all add: parseBgpCommunities_def)
  moreover have "parseBgpCommunities (JArr (map (\<lambda>c. JArr (map JNum c)) css))
        = Some (map (map trunc_toward_zero) css)"
    if r: "\<forall>c \<in> set css. \<forall>x \<in> set c. minInt \<le> trunc_toward_zero x \<and> trunc_toward_zero x \<le> maxInt"
  proof -
    have "map (map float64_to_int) css = map (map trunc_toward_zero) css"
      using r by (simp add: float64_to_int_in_range)
    then show ?thesis
      by (simp add: parseBgpCommunities_def communities_loop_lists)
  qed
  ultimately show ?thesis by blast
qed

text \<open>
  Witness for C8: an absent value, a string, and two communities, the second with numbers
  that have a fraction.
\<close>

theorem parseBgpCommunities_shapes_witness:
  "parseBgpCommunities JNull = Some [] \<and>
   parseBgpCommunities (JStr ''65000:100'') = Some [] \<and>
   parseBgpCommunities (JArr [JArr [JNum 65000, JNum 100], JArr [JNum (7 / 2), JNum (- 7 / 2)]])
     = Some [[65000, 100], [3, - 3]]"
proof -
  have f: "\<lfloor>7 / 2 :: rat\<rfloor> = 3"
    by (rule floor_unique) simp_all
  have t: "map (map trunc_toward_zero) [[65000, 100], [7 / 2, - 7 / 2 :: rat]] = [[65000, 100], [3, - 3]]"
    by (simp add: trunc_toward_zero_def f)
  have r: "\<forall>c \<in> set [[65000, 100], [7 / 2, - 7 / 2 :: rat]]. \<forall>x \<in> set c.
             minInt \<le> trunc_toward_zero x \<and> trunc_toward_zero x \<le> maxInt"
    by (simp add: trunc_toward_zero_def f minInt_def maxInt_def)
  show ?thesis
    using parseBgpCommunities_shapes [of JNull "[]"]
      parseBgpCommunities_shapes [of "JStr ''65000:100''" "[[65000, 100], [7 / 2, - 7 / 2]]"] r t
    by simp
qed

text \<open>
  Counterexample to C8 as stated: the wrongly shaped value \<^verbatim>\<open>[65000, 100]\<close>, a community
  that is not wrapped in a list of communities, does not give the empty sequence; the type
  assertion on its first element panics.
\<close>

theorem parseBgpCommunities_panics_on_flat_list:
  "parseBgpCommunities (JArr [JNum 65000, JNum 100]) = None"
  by (simp add: parseBgpCommunities_def)

section \<open>Time values that are not strings\<close>

text \<open>
  Claim C9. For a raw value that is not a string, \<^verbatim>\<open>parseServerTime\<close> returns the zero time
  and no error, and \<^verbatim>\<open>parseRelativeServerTime\<close> returns \<^verbatim>\<open>time.Since\<close> of the zero time: the
  duration from the zero time to the current instant, which is not the zero duration unless
  the clock itself reads the zero time, and which is the largest \<^verbatim>\<open>Duration\<close> when the
  distance does not fit in one.
\<close>

theorem non_string_time_is_zero_time:
  assumes "\<forall>s. v \<noteq> JStr s"
  shows "parseServerTime lib v layout timezone = (zero_time, None) \<and>
         parseRelativeServerTime lib now v config = time_Since now zero_time \<and>
         (now \<noteq> zero_time \<longrightarrow> parseRelativeServerTime lib now v config \<noteq> 0) \<and>
         (zero_time \<le> now \<and> now - zero_time \<le> maxDuration \<longrightarrow>
            parseRelativeServerTime lib now v config = now - zero_time) \<and>
         (maxDuration < now - zero_time \<longrightarrow>
            parseRelativeServerTime lib now v config = maxDuration)"
proof -
  have ok: "string_ok v = ([], False)"
    using assms by (cases v) simp_all
  have t: "parseServerTime lib v layout timezone = (zero_time, None)" for layout timezone
    by (simp add: parseServerTime_def ok)
  have r: "parseRelativeServerTime lib now v config = time_Since now zero_time"
    by (simp add: parseRelativeServerTime_def t)
  have "time_Since now zero_time \<noteq> 0" if "now \<noteq> zero_time"
    using that
    by (simp add: time_Since_def time_Sub_def zero_time_def Let_def maxDuration_def
        minDuration_def)
  moreover have "time_Since now zero_time = now - zero_time"
    if "zero_time \<le> now \<and> now - zero_time \<le> maxDuration"
    using that
    by (simp add: time_Since_def time_Sub_def zero_time_def Let_def maxDuration_def
        minDuration_def)
  moreover have "time_Since now zero_time = maxDuration" if "maxDuration < now - zero_time"
    using that by (simp add: time_Since_def time_Sub_def Let_def)
  ultimately show ?thesis using t r by simp
qed

text \<open>
  Witness for C9: the field is absent (\<^verbatim>\<open>nil\<close>); a clock that reads 2020-01-01 01:00:00 UTC
  is more than the largest \<^verbatim>\<open>Duration\<close> away from the zero time, and a clock that reads one
  hour after the zero time gives one hour.
\<close>

theorem non_string_time_is_zero_time_witness:
  "parseServerTime example_lib JNull SERVER_TIME_SHORT ''UTC'' = (zero_time, None) \<and>
   parseRelativeServerTime example_lib example_now JNull example_config_utc
     = 9223372036854775807 \<and>
   parseRelativeServerTime example_lib 3600000000000 JNull example_config_utc
     = 3600000000000"
proof -
  have h: "\<forall>s. JNull \<noteq> JStr s" by simp
  show ?thesis
    using non_string_time_is_zero_time [OF h, of example_lib SERVER_TIME_SHORT "''UTC''"
        example_now example_config_utc]
      non_string_time_is_zero_time [OF h, of example_lib SERVER_TIME_SHORT "''UTC''"
        3600000000000 example_config_utc]
    by (simp add: zero_time_def maxDuration_def example_now_def)
qed

section \<open>Validation of the lookup query\<close>

text \<open>
  Claim C10. A request whose parameter \<open>q\<close> is missing, does not have exactly one value, is
  empty or is shorter than two characters is answered with an error, and the handler has
  not called \<^verbatim>\<open>Lookup\<close>. For a single value of at least two characters both validations return
  the value unchanged, and the handler calls \<^verbatim>\<open>Lookup\<close> once, with that value.
\<close>

theorem lookup_query_validation:
  "(query ''q'' = None \<longrightarrow>
      apiLookupPrefixGlobal store t0 t1 query = (Inl ''Query param q is missing.'', [])) \<and>
   (\<forall>vs. query ''q'' = Some vs \<and> length vs \<noteq> 1 \<longrightarrow>
      apiLookupPrefixGlobal store t0 t1 query = (Inl ''Query param q is ambigous.'', [])) \<and>
   (query ''q'' = Some [[]] \<longrightarrow>
      apiLookupPrefixGlobal store t0 t1 query = (Inl ''Query param q may not be empty.'', [])) \<and>
   (\<forall>v. query ''q'' = Some [v] \<and> v \<noteq> [] \<and> length v < 2 \<longrightarrow>
      apiLookupPrefixGlobal store t0 t1 query = (Inl ''Query too short'', [])) \<and>
   (\<forall>v. query ''q'' = Some [v] \<and> 2 \<le> length v \<longrightarrow>
      validateQueryString query ''q'' = (v, None) \<and>
      validatePrefixQuery v = (v, None) \<and>
      apiLookupPrefixGlobal store t0 t1 query =
        (Inr \<lparr>Response_Routes = Lookup store v,
              Response_Time = of_int (time_Since t1 t0) / 1000 / 1000\<rparr>, [v]))"
  by (auto simp: apiLookupPrefixGlobal_def validateQueryString_def validatePrefixQuery_def
      Let_def)

text \<open>
  Witness for C10: a request without \<open>q\<close>, one with \<open>q\<close> given twice, one with an empty \<open>q\<close>,
  one with the single character \<open>1\<close>, and one with \<open>q=10.0.0.0/24\<close>.
\<close>

theorem lookup_query_validation_witness:
  "apiLookupPrefixGlobal example_store 0 5000000 Map.empty
     = (Inl ''Query param q is missing.'', []) \<and>
   apiLookupPrefixGlobal example_store 0 5000000 [''q'' \<mapsto> [''10.0.0.0/24'', ''10.0.0.0/8'']]
     = (Inl ''Query param q is ambigous.'', []) \<and>
   apiLookupPrefixGlobal example_store 0 5000000 [''q'' \<mapsto> [[]]]
     = (Inl ''Query param q may not be empty.'', []) \<and>
   apiLookupPrefixGlobal example_store 0 5000000 [''q'' \<mapsto> [''1'']]
     = (Inl ''Query too short'', []) \<and>
   apiLookupPrefixGlobal example_store 0 5000000 [''q'' \<mapsto> [''10.0.0.0/24'']]
     = (Inr \<lparr>Response_Routes = [], Response_Time = 5\<rparr>, [''10.0.0.0/24''])"
  using lookup_query_validation [of Map.empty example_store 0 5000000]
    lookup_query_validation [of "[''q'' \<mapsto> [''10.0.0.0/24'', ''10.0.0.0/8'']]" example_store 0 5000000]
    lookup_query_validation [of "[''q'' \<mapsto> [[]]]" example_store 0 5000000]
    lookup_query_validation [of "[''q'' \<mapsto> [''1'']]" example_store 0 5000000]
    lookup_query_validation [of "[''q'' \<mapsto> [''10.0.0.0/24'']]" example_store 0 5000000]
  by (simp add: Lookup_def time_Since_def time_Sub_def Let_def maxDuration_def minDuration_def)

end
